theory Spec2Isabelle
  imports Main "HOL-Library.Sublist"
begin

section \<open>Text\<close>

text \<open>
  A Python \<^verbatim>\<open>str\<close> is a sequence of code points. The development covers texts whose
  code points are below 256, so that one \<^typ>\<open>char\<close> is one code point; the character
  classes below are the ones Python's \<^verbatim>\<open>re\<close> and \<^verbatim>\<open>str\<close> use on that range.
\<close>

definition code :: "char \<Rightarrow> nat" where
  "code c = of_char c"

definition newline :: char where
  "newline = CHR 0x0A"

text \<open>The class \<^verbatim>\<open>\w\<close> of a \<^verbatim>\<open>str\<close> pattern: alphanumerics and the underscore.\<close>

definition is_word :: "char \<Rightarrow> bool" where
  "is_word c =
     (let n = code c in
        (48 \<le> n \<and> n \<le> 57) \<or> (65 \<le> n \<and> n \<le> 90) \<or> n = 95 \<or> (97 \<le> n \<and> n \<le> 122)
        \<or> n = 170 \<or> n = 178 \<or> n = 179 \<or> n = 181 \<or> n = 185 \<or> n = 186
        \<or> (188 \<le> n \<and> n \<le> 190) \<or> (192 \<le> n \<and> n \<le> 214)
        \<or> (216 \<le> n \<and> n \<le> 246) \<or> 248 \<le> n)"

text \<open>The class \<^verbatim>\<open>.\<close> without the DOTALL flag: everything but the line feed.\<close>

definition is_dot :: "char \<Rightarrow> bool" where
  "is_dot c = (c \<noteq> newline)"

section \<open>The directive pattern\<close>

text \<open>
  \<^verbatim>\<open>tool_call_pattern = r"\[TOOL_CALL: (\w+) (.+?)\]"\<close>

  \<open>strip_lit\<close> consumes a literal of the pattern at the head of the text.
\<close>

fun strip_lit :: "string \<Rightarrow> string \<Rightarrow> string option" where
  "strip_lit [] s = Some s"
| "strip_lit (p # ps) [] = None"
| "strip_lit (p # ps) (c # cs) = (if p = c then strip_lit ps cs else None)"

definition tool_call_open :: string where
  "tool_call_open = ''[TOOL_CALL: ''"

text \<open>
  The tail of the lazy group \<^verbatim>\<open>(.+?)\<close> followed by \<^verbatim>\<open>\]\<close>, after the group's first
  character: the group grows one character at a time and stops at the first closing
  bracket; a line feed before that bracket ends the attempt.
\<close>

fun lazy_dots :: "string \<Rightarrow> (string \<times> string) option" where
  "lazy_dots [] = None"
| "lazy_dots (c # cs) =
     (if c = CHR '']'' then Some ([], cs)
      else if is_dot c then
        (case lazy_dots cs of None \<Rightarrow> None | Some (g, r) \<Rightarrow> Some (c # g, r))
      else None)"

text \<open>
  One attempt of the pattern at the head of the text: the two groups and the text after
  the match. The greedy \<^verbatim>\<open>\w+\<close> takes the whole run of word characters: giving one back
  leaves a word character where the pattern wants the space, so no shorter run matches.
\<close>

definition match_here :: "string \<Rightarrow> ((string \<times> string) \<times> string) option" where
  "match_here s =
     (case strip_lit tool_call_open s of
        None \<Rightarrow> None
      | Some s1 \<Rightarrow>
          (let tool_name = takeWhile is_word s1; s2 = dropWhile is_word s1 in
           if tool_name = [] then None
           else (case s2 of
                   [] \<Rightarrow> None
                 | sp # s3 \<Rightarrow>
                     if sp \<noteq> CHR '' '' then None
                     else (case s3 of
                             [] \<Rightarrow> None
                           | d # s4 \<Rightarrow>
                               if \<not> is_dot d then None
                               else (case lazy_dots s4 of
                                       None \<Rightarrow> None
                                     | Some (g, r) \<Rightarrow> Some ((tool_name, d # g), r))))))"

lemma strip_lit_length: "strip_lit p s = Some r \<Longrightarrow> length r \<le> length s"
  by (induction p s rule: strip_lit.induct) (auto split: if_splits)

lemma lazy_dots_length: "lazy_dots s = Some (g, r) \<Longrightarrow> length r < length s"
  by (induction s arbitrary: g r) (auto split: if_splits option.splits)

lemma match_here_length:
  assumes "match_here s = Some (m, r)"
  shows "length r < length s"
proof -
  from assms obtain s1 sp s3 d s4 g where
    a: "strip_lit tool_call_open s = Some s1"
    and b: "dropWhile is_word s1 = sp # s3"
    and c: "s3 = d # s4"
    and d: "lazy_dots s4 = Some (g, r)"
    by (auto simp: match_here_def Let_def split: option.splits list.splits if_splits)
  have "length (dropWhile is_word s1) \<le> length s1"
    by (rule length_dropWhile_le)
  with b c have "length s4 < length s1" by simp
  moreover from d have "length r < length s4" by (rule lazy_dots_length)
  moreover from a have "length s1 \<le> length s" by (rule strip_lit_length)
  ultimately show ?thesis by simp
qed

text \<open>
  \<^verbatim>\<open>matches = re.findall(tool_call_pattern, text_response)\<close>: the attempts run from left
  to right; after a match the scan goes on behind it, after a failure one character
  further. With two groups in the pattern each result is the pair of their texts.
\<close>

function findall :: "string \<Rightarrow> (string \<times> string) list" where
  "findall [] = []"
| "findall (c # cs) =
     (case match_here (c # cs) of
        None \<Rightarrow> findall cs
      | Some (m, r) \<Rightarrow> m # findall r)"
  by pat_completeness auto
termination
proof (relation "measure length")
  show "wf (measure length)" by simp
next
  fix c cs
  show "(cs, c # cs) \<in> measure length" by simp
next
  fix c :: char and cs x2 x y
  assume "match_here (c # cs) = Some x2" and "(x, y) = x2"
  then have "match_here (c # cs) = Some (x, y)" by simp
  then have "length y < length (c # cs)" by (rule match_here_length)
  then show "(y, c # cs) \<in> measure length" by simp
qed

text \<open>
  The token of a directive as the specification writes it, \<^verbatim>\<open>[TOOL_CALL: <name> <payload>]\<close>,
  and the shape of its parts: a name of word characters, and a payload on one line that
  ends before the first closing bracket behind its first character.
\<close>

definition directive_token :: "string \<Rightarrow> string \<Rightarrow> string" where
  "directive_token n a = ''[TOOL_CALL: '' @ n @ '' '' @ a @ '']''"

definition token_shape :: "string \<Rightarrow> string \<Rightarrow> bool" where
  "token_shape n a \<longleftrightarrow>
     n \<noteq> [] \<and> list_all is_word n \<and> a \<noteq> [] \<and> newline \<notin> set a \<and> CHR '']'' \<notin> set (tl a)"


section \<open>Values, exceptions, messages and tools\<close>

text \<open>
  What \<^verbatim>\<open>json.loads\<close> returns, and what a tool's \<^verbatim>\<open>inputSchema\<close> is made of. A
  \<^verbatim>\<open>dict\<close> is the list of its items in insertion order (its keys are distinct); a float
  is kept as its literal.
\<close>

datatype json =
    JNull
  | JBool bool
  | JInt int
  | JFloat string
  | JString string
  | JArray "json list"
  | JObject "(string \<times> json) list"

text \<open>
  The exceptions of the model are the ones \<^verbatim>\<open>except Exception\<close> catches; each carries
  the text \<^verbatim>\<open>str(e)\<close>. \<open>Raised\<close> is a failure of the session, of the language model
  or of \<^verbatim>\<open>json.loads\<close>.
\<close>

datatype exn =
    KeyError string
  | TypeError string
  | AttributeError string
  | Raised string

fun exn_text :: "exn \<Rightarrow> string" where
  "exn_text (KeyError m) = m"
| "exn_text (TypeError m) = m"
| "exn_text (AttributeError m) = m"
| "exn_text (Raised m) = m"

fun type_name :: "json \<Rightarrow> string" where
  "type_name JNull = ''NoneType''"
| "type_name (JBool b) = ''bool''"
| "type_name (JInt i) = ''int''"
| "type_name (JFloat f) = ''float''"
| "type_name (JString s) = ''str''"
| "type_name (JArray xs) = ''list''"
| "type_name (JObject kvs) = ''dict''"

definition quoted :: "string \<Rightarrow> string" where
  "quoted s = [CHR 0x27] @ s @ [CHR 0x27]"

text \<open>\<^verbatim>\<open>d[key]\<close> on a dict.\<close>

definition getitem :: "(string \<times> json) list \<Rightarrow> string \<Rightarrow> exn + json" where
  "getitem kvs key =
     (case map_of kvs key of None \<Rightarrow> Inl (KeyError (quoted key)) | Some v \<Rightarrow> Inr v)"

text \<open>\<^verbatim>\<open>v[key]\<close> with a string key on any value (messages as of Python 3.11).\<close>

fun subscript :: "json \<Rightarrow> string \<Rightarrow> exn + json" where
  "subscript (JObject kvs) key = getitem kvs key"
| "subscript (JString s) key =
     Inl (TypeError (''string indices must be integers, not '' @ quoted ''str''))"
| "subscript (JArray xs) key =
     Inl (TypeError ''list indices must be integers or slices, not str'')"
| "subscript v key =
     Inl (TypeError (quoted (type_name v) @ '' object is not subscriptable''))"

text \<open>\<^verbatim>\<open>v.items()\<close>.\<close>

fun items :: "json \<Rightarrow> exn + (string \<times> json) list" where
  "items (JObject kvs) = Inr kvs"
| "items v =
     Inl (AttributeError (quoted (type_name v) @ '' object has no attribute '' @ quoted ''items''))"

record message =
  role :: string
  content :: string

text \<open>A tool as the session lists it; the description may be \<^verbatim>\<open>None\<close>.\<close>

record tool =
  name :: string
  description :: "string option"
  inputSchema :: "(string \<times> json) list"

text \<open>The dict that \<^verbatim>\<open>process_query\<close> builds for each tool.\<close>

record tool_dict =
  d_name :: string
  d_description :: "string option"
  d_input_schema :: "(string \<times> json) list"

text \<open>\<^verbatim>\<open>sep.join(parts)\<close>.\<close>

fun join :: "string \<Rightarrow> string list \<Rightarrow> string" where
  "join sep [] = []"
| "join sep [x] = x"
| "join sep (x # y # ys) = x @ sep @ join sep (y # ys)"

section \<open>The capabilities\<close>

text \<open>
  The session, the language model and the library functions the client calls are not
  part of the repository; they are parameters. \<open>'w\<close> is the state of the outside world
  (the server, the model), threaded through every call; \<open>'c\<close> is the type of a tool
  result's \<^verbatim>\<open>content\<close>.
  \<^item> \<open>json_loads\<close> is \<^verbatim>\<open>json.loads\<close>;
  \<^item> \<open>py_str\<close> is the text an f-string gives a decoded value that is not a \<^verbatim>\<open>str\<close>;
  \<^item> \<open>str_content\<close> is \<^verbatim>\<open>str(result.content)\<close>;
  \<^item> \<open>list_tools\<close> is \<^verbatim>\<open>(await self.session.list_tools()).tools\<close>;
  \<^item> \<open>call_tool\<close> is \<^verbatim>\<open>(await self.session.call_tool(name, args)).content\<close>;
  \<^item> \<open>acreate\<close> is \<^verbatim>\<open>openai.ChatCompletion.acreate\<close> with the model
    \<^verbatim>\<open>gpt-4o-mini\<close> and the temperature 0.7, given the messages and \<^verbatim>\<open>max_tokens\<close>,
    returning \<^verbatim>\<open>response.choices[0].message.content\<close>.
\<close>

record ('w, 'c) env =
  json_loads :: "string \<Rightarrow> exn + json"
  py_str :: "json \<Rightarrow> string"
  str_content :: "'c \<Rightarrow> string"
  list_tools :: "'w \<Rightarrow> (exn + tool list) \<times> 'w"
  call_tool :: "string \<Rightarrow> json \<Rightarrow> 'w \<Rightarrow> (exn + 'c) \<times> 'w"
  acreate :: "message list \<Rightarrow> nat \<Rightarrow> 'w \<Rightarrow> (exn + string) \<times> 'w"

text \<open>The calls made to the session and to the model, in order, each with its outcome.\<close>

datatype 'c event =
    ListTools "exn + tool list"
  | ChatCompletion "message list" nat "exn + string"
  | CallTool string json "exn + 'c"

text \<open>
  The variables of \<^verbatim>\<open>process_query\<close>, the world, and the calls made so far.
\<close>

record ('w, 'c) state =
  world :: 'w
  messages :: "message list"
  final_text :: "string list"
  log :: "'c event list"

section \<open>The prompt: \<^verbatim>\<open>openai_chat\<close>\<close>

definition system_msg_base :: string where
  "system_msg_base =
     ''You are a helpful assistant. '' @
     ''If the user asks something that can be answered using a tool, respond with a tool call using the format:\<newline>'' @
     ''[TOOL_CALL: tool_name {\"arg1\": \"value1\", \"arg2\": \"value2\"}]\<newline>'' @
     ''Always choose to use a tool if it is available, and do not ask the user follow-up questions first.''"

definition tool_info_header :: string where
  "tool_info_header = ''\<newline>Available tools and their input schemas:\<newline>''"

text \<open>An f-string field: a \<^verbatim>\<open>str\<close> is itself, \<^verbatim>\<open>None\<close> prints as \<^verbatim>\<open>None\<close>.\<close>

fun fmt :: "(json \<Rightarrow> string) \<Rightarrow> json \<Rightarrow> string" where
  "fmt pystr (JString s) = s"
| "fmt pystr v = pystr v"

fun fmt_opt :: "string option \<Rightarrow> string" where
  "fmt_opt None = ''None''"
| "fmt_opt (Some s) = s"

text \<open>
  \<^verbatim>\<open>f"{k}: {v['type']}" for k, v in ....items()\<close>: the parts in order, up to the first
  one that raises.
\<close>

fun field_parts :: "(json \<Rightarrow> string) \<Rightarrow> (string \<times> json) list \<Rightarrow> exn + string list" where
  "field_parts pystr [] = Inr []"
| "field_parts pystr ((k, v) # kvs) =
     (case subscript v ''type'' of
        Inl e \<Rightarrow> Inl e
      | Inr t \<Rightarrow>
          (case field_parts pystr kvs of
             Inl e \<Rightarrow> Inl e
           | Inr ps \<Rightarrow> Inr ((k @ '': '' @ fmt pystr t) # ps)))"

definition input_fields :: "(json \<Rightarrow> string) \<Rightarrow> tool_dict \<Rightarrow> exn + string" where
  "input_fields pystr t =
     (case getitem (d_input_schema t) ''properties'' of
        Inl e \<Rightarrow> Inl e
      | Inr props \<Rightarrow>
          (case items props of
             Inl e \<Rightarrow> Inl e
           | Inr kvs \<Rightarrow>
               (case field_parts pystr kvs of
                  Inl e \<Rightarrow> Inl e
                | Inr ps \<Rightarrow> Inr (join '', '' ps))))"

definition tool_line :: "tool_dict \<Rightarrow> string \<Rightarrow> string" where
  "tool_line t flds =
     ''- '' @ d_name t @ '': '' @ fmt_opt (d_description t) @ '' (Inputs: '' @ flds @ '')\<newline>''"

text \<open>The loop \<^verbatim>\<open>for tool in available_tools: tool_info += ...\<close>.\<close>

fun tool_info :: "(json \<Rightarrow> string) \<Rightarrow> tool_dict list \<Rightarrow> string \<Rightarrow> exn + string" where
  "tool_info pystr [] acc = Inr acc"
| "tool_info pystr (t # ts) acc =
     (case input_fields pystr t of
        Inl e \<Rightarrow> Inl e
      | Inr flds \<Rightarrow> tool_info pystr ts (acc @ tool_line t flds))"

text \<open>
  \<^verbatim>\<open>if available_tools:\<close> is false for \<^verbatim>\<open>None\<close> and for the empty list.
\<close>

fun system_msg :: "(json \<Rightarrow> string) \<Rightarrow> tool_dict list option \<Rightarrow> exn + string" where
  "system_msg pystr None = Inr system_msg_base"
| "system_msg pystr (Some []) = Inr system_msg_base"
| "system_msg pystr (Some (t # ts)) =
     (case tool_info pystr (t # ts) tool_info_header of
        Inl e \<Rightarrow> Inl e
      | Inr info \<Rightarrow> Inr (system_msg_base @ ''\<newline>'' @ info))"

definition openai_chat ::
  "('w, 'c) env \<Rightarrow> message list \<Rightarrow> tool_dict list option \<Rightarrow> nat \<Rightarrow> ('w, 'c) state
     \<Rightarrow> (exn + string) \<times> ('w, 'c) state" where
  "openai_chat E msgs available_tools max_tokens st =
     (case system_msg (py_str E) available_tools of
        Inl e \<Rightarrow> (Inl e, st)
      | Inr sm \<Rightarrow>
          (let chat_messages = \<lparr>role = ''system'', content = sm\<rparr> # msgs in
           case acreate E chat_messages max_tokens (world st) of
             (r, w') \<Rightarrow>
               (r, st\<lparr>world := w', log := log st @ [ChatCompletion chat_messages max_tokens r]\<rparr>)))"

section \<open>The conversation loop: \<^verbatim>\<open>process_query\<close>\<close>

text \<open>
  \<^verbatim>\<open>try: tool_args = json.loads(tool_args_str)  except Exception: tool_args = {}\<close>
\<close>

definition tool_args :: "('w, 'c) env \<Rightarrow> string \<Rightarrow> json" where
  "tool_args E tool_args_str =
     (case json_loads E tool_args_str of Inl e \<Rightarrow> JObject [] | Inr v \<Rightarrow> v)"

text \<open>One round of the loop over the matches.\<close>

definition run_directive ::
  "('w, 'c) env \<Rightarrow> string \<times> string \<Rightarrow> ('w, 'c) state \<Rightarrow> (exn + unit) \<times> ('w, 'c) state" where
  "run_directive E m st =
     (case m of (tool_name, tool_args_str) \<Rightarrow>
        (let args = tool_args E tool_args_str in
         case call_tool E tool_name args (world st) of
           (r, w') \<Rightarrow>
             (let st1 = st\<lparr>world := w', log := log st @ [CallTool tool_name args r]\<rparr> in
              case r of
                Inl e \<Rightarrow> (Inl e, st1)
              | Inr c \<Rightarrow>
                  (let st2 = st1\<lparr>messages := messages st1 @
                         [\<lparr>role = ''assistant'', content = ''[Tool '' @ tool_name @ '' executed]''\<rparr>,
                          \<lparr>role = ''user'', content = str_content E c\<rparr>]\<rparr> in
                   case openai_chat E (messages st2) None 1000 st2 of
                     (Inl e, st3) \<Rightarrow> (Inl e, st3)
                   | (Inr followup_text, st3) \<Rightarrow>
                       (Inr (), st3\<lparr>final_text := final_text st3 @ [followup_text]\<rparr>)))))"

fun for_matches ::
  "('w, 'c) env \<Rightarrow> (string \<times> string) list \<Rightarrow> ('w, 'c) state \<Rightarrow> (exn + unit) \<times> ('w, 'c) state" where
  "for_matches E [] st = (Inr (), st)"
| "for_matches E (m # ms) st =
     (case run_directive E m st of
        (Inl e, st') \<Rightarrow> (Inl e, st')
      | (Inr u, st') \<Rightarrow> for_matches E ms st')"

definition to_dict :: "tool \<Rightarrow> tool_dict" where
  "to_dict t = \<lparr>d_name = name t, d_description = description t, d_input_schema = inputSchema t\<rparr>"

definition process_query ::
  "('w, 'c) env \<Rightarrow> string \<Rightarrow> 'w \<Rightarrow> (exn + string) \<times> ('w, 'c) state" where
  "process_query E query w =
     (case list_tools E w of
        (r, w1) \<Rightarrow>
          (let st1 = \<lparr>world = w1, messages = [\<lparr>role = ''user'', content = query\<rparr>],
                      final_text = [], log = [ListTools r]\<rparr> in
           case r of
             Inl e \<Rightarrow> (Inl e, st1)
           | Inr tools \<Rightarrow>
               (let available_tools = map to_dict tools in
                case openai_chat E (messages st1) (Some available_tools) 1000 st1 of
                  (Inl e, st2) \<Rightarrow> (Inl e, st2)
                | (Inr text_response, st2) \<Rightarrow>
                    (let st3 = st2\<lparr>final_text := [text_response]\<rparr>;
                         matches = findall text_response in
                     case for_matches E matches st3 of
                       (Inl e, st4) \<Rightarrow> (Inl e, st4)
                     | (Inr u, st4) \<Rightarrow> (Inr (join ''\<newline>'' (final_text st4)), st4)))))"

section \<open>The interactive loop: \<^verbatim>\<open>chat_loop\<close>\<close>

text \<open>\<^verbatim>\<open>str.strip()\<close> and \<^verbatim>\<open>str.lower()\<close> on code points below 256.\<close>

definition is_space :: "char \<Rightarrow> bool" where
  "is_space c =
     (let n = code c in (9 \<le> n \<and> n \<le> 13) \<or> (28 \<le> n \<and> n \<le> 32) \<or> n = 133 \<or> n = 160)"

definition strip :: "string \<Rightarrow> string" where
  "strip s = rev (dropWhile is_space (rev (dropWhile is_space s)))"

definition lower_char :: "char \<Rightarrow> char" where
  "lower_char c =
     (let n = code c in
      if (65 \<le> n \<and> n \<le> 90) \<or> (192 \<le> n \<and> n \<le> 214) \<or> (216 \<le> n \<and> n \<le> 222)
      then char_of (n + 32) else c)"

definition lower :: "string \<Rightarrow> string" where
  "lower s = map lower_char s"

datatype loop_end = Quit | AwaitingInput

text \<open>
  The \<^verbatim>\<open>while True\<close> loop, run on the lines typed so far. The result is what
  \<^verbatim>\<open>chat_loop\<close> itself writes to the console (the prompt of \<^verbatim>\<open>input\<close>, then the answer
  or the error), how the run ends (\<^verbatim>\<open>break\<close>, or \<^verbatim>\<open>input\<close> waiting for the next line),
  and the world. The progress messages \<^verbatim>\<open>process_query\<close> prints in between are left
  out.
\<close>

fun chat_loop_body ::
  "('w, 'c) env \<Rightarrow> string list \<Rightarrow> 'w \<Rightarrow> string list \<times> loop_end \<times> 'w" where
  "chat_loop_body E [] w = ([''\<newline>Query: ''], AwaitingInput, w)"
| "chat_loop_body E (line # lines) w =
     (let query = strip line in
      if lower query = ''quit'' then ([''\<newline>Query: ''], Quit, w)
      else
        (case process_query E query w of
           (Inr response, st) \<Rightarrow>
             (case chat_loop_body E lines (world st) of
                (out, fin) \<Rightarrow> (''\<newline>Query: '' # (''\<newline>'' @ response @ ''\<newline>'') # out, fin))
         | (Inl e, st) \<Rightarrow>
             (case chat_loop_body E lines (world st) of
                (out, fin) \<Rightarrow>
                  (''\<newline>Query: '' # (''\<newline>Error: '' @ exn_text e @ ''\<newline>'') # out, fin))))"

definition chat_loop ::
  "('w, 'c) env \<Rightarrow> string list \<Rightarrow> 'w \<Rightarrow> string list \<times> loop_end \<times> 'w" where
  "chat_loop E lines w =
     (case chat_loop_body E lines w of
        (out, fin) \<Rightarrow>
          (''\<newline>MCP Client Started!\<newline>'' # ''Type your queries or 'quit' to exit.\<newline>'' # out, fin))"

section \<open>Reading the log\<close>

text \<open>The exception a logged call ended with, if it failed.\<close>

fun failure :: "'c event \<Rightarrow> exn option" where
  "failure (ListTools r) = (case r of Inl e \<Rightarrow> Some e | Inr ts \<Rightarrow> None)"
| "failure (ChatCompletion ms k r) = (case r of Inl e \<Rightarrow> Some e | Inr t \<Rightarrow> None)"
| "failure (CallTool n a r) = (case r of Inl e \<Rightarrow> Some e | Inr c \<Rightarrow> None)"

text \<open>The tool calls sent to the session, in order: name and arguments.\<close>

fun dispatched :: "'c event list \<Rightarrow> (string \<times> json) list" where
  "dispatched [] = []"
| "dispatched (CallTool n a r # es) = (n, a) # dispatched es"
| "dispatched (ev # es) = dispatched es"

text \<open>The message lists sent to the model, in order.\<close>

fun prompts :: "'c event list \<Rightarrow> message list list" where
  "prompts [] = []"
| "prompts (ChatCompletion ms k r # es) = ms # prompts es"
| "prompts (ev # es) = prompts es"

text \<open>The two history entries of an executed tool call.\<close>

definition tool_entries :: "('w, 'c) env \<Rightarrow> string \<Rightarrow> 'c \<Rightarrow> message list" where
  "tool_entries E tool_name c =
     [\<lparr>role = ''assistant'', content = ''[Tool '' @ tool_name @ '' executed]''\<rparr>,
      \<lparr>role = ''user'', content = str_content E c\<rparr>]"

text \<open>The history entries of all executed tool calls of a log.\<close>

fun executed_entries :: "('w, 'c) env \<Rightarrow> 'c event list \<Rightarrow> message list" where
  "executed_entries E [] = []"
| "executed_entries E (CallTool n a (Inr c) # es) = tool_entries E n c @ executed_entries E es"
| "executed_entries E (ev # es) = executed_entries E es"

text \<open>
  One successful round of the loop as it shows in the log: the tool call for a directive
  with the content it returned, then the follow-up model call with its messages and
  its answer.
\<close>

type_synonym 'c round = "'c \<times> message list \<times> string"

definition round_events :: "('w, 'c) env \<Rightarrow> string \<times> string \<Rightarrow> 'c round \<Rightarrow> 'c event list" where
  "round_events E d r =
     (case d of (tool_name, tool_args_str) \<Rightarrow>
        (case r of (c, ms, followup_text) \<Rightarrow>
           [CallTool tool_name (tool_args E tool_args_str) (Inr c),
            ChatCompletion ms 1000 (Inr followup_text)]))"

definition followup :: "'c round \<Rightarrow> string" where
  "followup r = snd (snd r)"

text \<open>The system message of a call without tools.\<close>

definition system_message :: message where
  "system_message = \<lparr>role = ''system'', content = system_msg_base\<rparr>"

text \<open>What the loop sends to the session for a match: the name and the decoded arguments.\<close>

definition directive_call :: "('w, 'c) env \<Rightarrow> string \<times> string \<Rightarrow> string \<times> json" where
  "directive_call E d =
     (case d of (tool_name, tool_args_str) \<Rightarrow> (tool_name, tool_args E tool_args_str))"

text \<open>
  The model's first answer in the log of a query: the log starts with the listing of the
  tools and the first model call.
\<close>

fun initial_response :: "'c event list \<Rightarrow> string option" where
  "initial_response (ListTools lr # ChatCompletion ms k (Inr t) # es) = Some t"
| "initial_response es = None"

text \<open>Whether a text occurs inside another.\<close>

fun starts_with :: "string \<Rightarrow> string \<Rightarrow> bool" where
  "starts_with [] s = True"
| "starts_with (p # ps) [] = False"
| "starts_with (p # ps) (c # cs) = (p = c \<and> starts_with ps cs)"

fun occurs_in :: "string \<Rightarrow> string \<Rightarrow> bool" where
  "occurs_in p [] = starts_with p []"
| "occurs_in p (c # cs) = (starts_with p (c # cs) \<or> occurs_in p cs)"

section \<open>The rounds of the loop, as specified\<close>

text \<open>
  The specification's steps 5a to 5d, stated on the capabilities alone. Starting in the
  world \<open>w\<close> with the history \<open>h\<close>, every directive in turn has its payload decoded (an
  empty mapping when the decoding fails), is run by the session on those arguments, adds
  the marker of the assistant and the result as a message of the user to the history,
  and is followed by an answer of the model to the history so far, sent without a
  catalog. When every one of these calls succeeds the result is the answers, the calls
  made, and the world and the history at the end; when one fails there is none.
\<close>

fun rounds ::
  "('w, 'c) env \<Rightarrow> (string \<times> string) list \<Rightarrow> 'w \<Rightarrow> message list
     \<Rightarrow> (string list \<times> 'c event list \<times> 'w \<times> message list) option" where
  "rounds E [] w h = Some ([], [], w, h)"
| "rounds E ((tool_name, payload) # ds) w h =
     (let args = (case json_loads E payload of Inl x \<Rightarrow> JObject [] | Inr v \<Rightarrow> v) in
      case call_tool E tool_name args w of
        (Inl e, w1) \<Rightarrow> None
      | (Inr c, w1) \<Rightarrow>
          (let h1 = h @ [\<lparr>role = ''assistant'', content = ''[Tool '' @ tool_name @ '' executed]''\<rparr>,
                         \<lparr>role = ''user'', content = str_content E c\<rparr>];
               prompt = \<lparr>role = ''system'', content = system_msg_base\<rparr> # h1 in
           case acreate E prompt 1000 w1 of
             (Inl e, w2) \<Rightarrow> None
           | (Inr followup_text, w2) \<Rightarrow>
               (case rounds E ds w2 h1 of
                  None \<Rightarrow> None
                | Some (fs, evs, w', h') \<Rightarrow>
                    Some (followup_text # fs,
                          CallTool tool_name args (Inr c)
                            # ChatCompletion prompt 1000 (Inr followup_text) # evs,
                          w', h'))))"

section \<open>An environment for the examples\<close>

text \<open>
  \<^verbatim>\<open>json.loads\<close> on the payloads the examples use: four that decode, and two that
  are not JSON, with the messages of their \<^verbatim>\<open>JSONDecodeError\<close>. The examples decode no
  other payload.
\<close>

definition sample_loads :: "string \<Rightarrow> exn + json" where
  "sample_loads s =
     (if s = ''{\"city\": \"Paris\"}'' then Inr (JObject [(''city'', JString ''Paris'')])
      else if s = ''42'' then Inr (JInt 42)
      else if s = ''null'' then Inr JNull
      else if s = ''{}'' then Inr (JObject [])
      else if s = ''{city: Paris}''
        then Inl (Raised ''Expecting property name enclosed in double quotes: line 1 column 2 (char 1)'')
      else if s = ''{\"xs\": [1''
        then Inl (Raised ''Expecting ',' delimiter: line 1 column 10 (char 9)'')
      else Inl (Raised ''not a payload of the examples''))"

definition sample_py_str :: "json \<Rightarrow> string" where
  "sample_py_str v = (case v of JNull \<Rightarrow> ''None'' | JBool b \<Rightarrow> (if b then ''True'' else ''False'') | _ \<Rightarrow> ''?'')"

definition sample_tools :: "tool list" where
  "sample_tools =
     [\<lparr>name = ''get_weather'', description = Some ''Weather of a city'',
       inputSchema =
         [(''type'', JString ''object''),
          (''properties'',
             JObject [(''city'', JObject [(''type'', JString ''string'')]),
                      (''days'', JObject [(''type'', JString ''integer'')])])]\<rparr>]"

text \<open>The system message that lists \<open>sample_tools\<close>.\<close>

definition sample_system_msg :: string where
  "sample_system_msg =
     system_msg_base @ ''\<newline>'' @ tool_info_header @
     ''- get_weather: Weather of a city (Inputs: city: string, days: integer)\<newline>''"

text \<open>
  The world counts the calls made. The session lists one tool; it runs every tool but
  \<^verbatim>\<open>broken\<close>, whether listed or not, and the content of a result names the tool. The
  model answers \<^verbatim>\<open>Re: \<close> and the content of the last message it is sent.
\<close>

definition sample_env :: "(nat, string) env" where
  "sample_env =
     \<lparr>json_loads = sample_loads,
      py_str = sample_py_str,
      str_content = (\<lambda>c. c),
      list_tools = (\<lambda>w. (Inr sample_tools, Suc w)),
      call_tool = (\<lambda>tool_name args w.
         (if tool_name = ''broken'' then Inl (Raised ''tool failed'')
          else Inr (''result of '' @ tool_name), Suc w)),
      acreate = (\<lambda>ms max_tokens w. (Inr (''Re: '' @ content (last ms)), Suc w))\<rparr>"

text \<open>The queries of the examples, and the first message of each.\<close>

definition two_calls :: string where
  "two_calls = ''[TOOL_CALL: a 42] [TOOL_CALL: b {city: Paris}]''"

definition second_fails :: string where
  "second_fails = ''[TOOL_CALL: a 42] [TOOL_CALL: broken null]''"


definition user_message :: "string \<Rightarrow> message" where
  "user_message q = \<lparr>role = ''user'', content = q\<rparr>"

text \<open>The history and the calls of the two rounds of \<open>two_calls\<close>.\<close>

definition after_a :: "message list" where
  "after_a =
     [\<lparr>role = ''user'', content = two_calls\<rparr>,
      \<lparr>role = ''assistant'', content = ''[Tool a executed]''\<rparr>,
      \<lparr>role = ''user'', content = ''result of a''\<rparr>]"

definition after_b :: "message list" where
  "after_b =
     after_a @ [\<lparr>role = ''assistant'', content = ''[Tool b executed]''\<rparr>,
                \<lparr>role = ''user'', content = ''result of b''\<rparr>]"

definition events_a :: "string event list" where
  "events_a =
     [CallTool ''a'' (JInt 42) (Inr ''result of a''),
      ChatCompletion (\<lparr>role = ''system'', content = system_msg_base\<rparr> # after_a) 1000
        (Inr ''Re: result of a'')]"

definition events_b :: "string event list" where
  "events_b =
     [CallTool ''b'' (JObject []) (Inr ''result of b''),
      ChatCompletion (\<lparr>role = ''system'', content = system_msg_base\<rparr> # after_b) 1000
        (Inr ''Re: result of b'')]"

section \<open>The steps of the loop\<close>

lemma openai_chat_None:
  "openai_chat E ms None k st =
     (case acreate E (system_message # ms) k (world st) of
        (r, w') \<Rightarrow> (r, st\<lparr>world := w', log := log st @ [ChatCompletion (system_message # ms) k r]\<rparr>))"
  by (simp add: openai_chat_def system_message_def Let_def)

lemma run_directive_unfold:
  "run_directive E (n, p) st =
     (case call_tool E n (tool_args E p) (world st) of
        (Inl e, w') \<Rightarrow>
          (Inl e, st\<lparr>world := w', log := log st @ [CallTool n (tool_args E p) (Inl e)]\<rparr>)
      | (Inr c, w') \<Rightarrow>
          (case acreate E (system_message # messages st @ tool_entries E n c) 1000 w' of
             (Inl e, w'') \<Rightarrow>
               (Inl e, st\<lparr>world := w'', messages := messages st @ tool_entries E n c,
                   log := log st @ [CallTool n (tool_args E p) (Inr c),
                     ChatCompletion (system_message # messages st @ tool_entries E n c) 1000 (Inl e)]\<rparr>)
           | (Inr f, w'') \<Rightarrow>
               (Inr (), st\<lparr>world := w'', messages := messages st @ tool_entries E n c,
                   final_text := final_text st @ [f],
                   log := log st @ [CallTool n (tool_args E p) (Inr c),
                     ChatCompletion (system_message # messages st @ tool_entries E n c) 1000 (Inr f)]\<rparr>)))"
  by (simp add: run_directive_def Let_def openai_chat_None tool_entries_def
      split: prod.splits sum.splits)

lemma run_directive_cases [consumes 1, case_names tool_failed chat_failed ok]:
  assumes run: "run_directive E (n, p) st = (r, st')"
  obtains
    e w' where
      "call_tool E n (tool_args E p) (world st) = (Inl e, w')"
      "r = Inl e"
      "st' = st\<lparr>world := w', log := log st @ [CallTool n (tool_args E p) (Inl e)]\<rparr>"
  | c w' e w'' where
      "call_tool E n (tool_args E p) (world st) = (Inr c, w')"
      "acreate E (system_message # messages st @ tool_entries E n c) 1000 w' = (Inl e, w'')"
      "r = Inl e"
      "st' = st\<lparr>world := w'', messages := messages st @ tool_entries E n c,
                log := log st @ [CallTool n (tool_args E p) (Inr c),
                  ChatCompletion (system_message # messages st @ tool_entries E n c) 1000 (Inl e)]\<rparr>"
  | c w' f w'' where
      "call_tool E n (tool_args E p) (world st) = (Inr c, w')"
      "acreate E (system_message # messages st @ tool_entries E n c) 1000 w' = (Inr f, w'')"
      "r = Inr ()"
      "st' = st\<lparr>world := w'', messages := messages st @ tool_entries E n c,
                final_text := final_text st @ [f],
                log := log st @ [CallTool n (tool_args E p) (Inr c),
                  ChatCompletion (system_message # messages st @ tool_entries E n c) 1000 (Inr f)]\<rparr>"
proof -
  obtain rt w' where ct: "call_tool E n (tool_args E p) (world st) = (rt, w')"
    by (cases "call_tool E n (tool_args E p) (world st)")
  show thesis
  proof (cases rt)
    case (Inl e)
    with run ct have "r = Inl e"
      "st' = st\<lparr>world := w', log := log st @ [CallTool n (tool_args E p) (Inl e)]\<rparr>"
      by (simp_all add: run_directive_unfold)
    with ct Inl show thesis by (intro that(1)) simp_all
  next
    case (Inr c)
    obtain rc w'' where ac:
      "acreate E (system_message # messages st @ tool_entries E n c) 1000 w' = (rc, w'')"
      by (cases "acreate E (system_message # messages st @ tool_entries E n c) 1000 w'")
    show thesis
    proof (cases rc)
      case (Inl e)
      with run ct ac Inr have "r = Inl e"
        "st' = st\<lparr>world := w'', messages := messages st @ tool_entries E n c,
                log := log st @ [CallTool n (tool_args E p) (Inr c),
                  ChatCompletion (system_message # messages st @ tool_entries E n c) 1000 (Inl e)]\<rparr>"
        by (simp_all add: run_directive_unfold)
      with ct ac Inr Inl show thesis by (intro that(2)) simp_all
    next
      case rcr: (Inr f)
      with run ct ac Inr have "r = Inr ()"
        "st' = st\<lparr>world := w'', messages := messages st @ tool_entries E n c,
                final_text := final_text st @ [f],
                log := log st @ [CallTool n (tool_args E p) (Inr c),
                  ChatCompletion (system_message # messages st @ tool_entries E n c) 1000 (Inr f)]\<rparr>"
        by (simp_all add: run_directive_unfold)
      with ct ac Inr rcr show thesis by (intro that(3)) simp_all
    qed
  qed
qed

lemma for_matches_ok:
  "for_matches E ds st = (Inr u, st') \<Longrightarrow>
     \<exists>rs. length rs = length ds
        \<and> log st' = log st @ concat (map2 (round_events E) ds rs)
        \<and> final_text st' = final_text st @ map followup rs"
proof (induction ds arbitrary: st)
  case Nil
  then show ?case by simp
next
  case (Cons d ds)
  obtain n p where d: "d = (n, p)" by (cases d)
  obtain r1 st1 where step: "run_directive E (n, p) st = (r1, st1)"
    by (cases "run_directive E (n, p) st")
  from Cons.prems d step have r1: "r1 = Inr ()" and rest: "for_matches E ds st1 = (Inr u, st')"
    by (auto split: sum.splits)
  from Cons.IH [OF rest] obtain rs where rs:
    "length rs = length ds"
    "log st' = log st1 @ concat (map2 (round_events E) ds rs)"
    "final_text st' = final_text st1 @ map followup rs"
    by blast
  from step r1 show ?case
  proof (cases rule: run_directive_cases)
    case (ok c w' f w'')
    let ?m = "system_message # messages st @ tool_entries E n c"
    have "length ((c, ?m, f) # rs) = length (d # ds)" using rs(1) by simp
    moreover have "log st' = log st @ concat (map2 (round_events E) (d # ds) ((c, ?m, f) # rs))"
      using rs(2) ok(4) d by (simp add: round_events_def)
    moreover have "final_text st' = final_text st @ map followup ((c, ?m, f) # rs)"
      using rs(3) ok(4) by (simp add: followup_def)
    ultimately show ?thesis by blast
  qed simp_all
qed

lemma for_matches_messages:
  "for_matches E ds st = (r, st') \<Longrightarrow>
     \<exists>new. log st' = log st @ new \<and> messages st' = messages st @ executed_entries E new"
proof (induction ds arbitrary: st)
  case Nil
  then have "log st' = log st @ [] \<and> messages st' = messages st @ executed_entries E []" by simp
  then show ?case by blast
next
  case (Cons d ds)
  obtain n p where d: "d = (n, p)" by (cases d)
  obtain r1 st1 where step: "run_directive E (n, p) st = (r1, st1)"
    by (cases "run_directive E (n, p) st")
  from step show ?case
  proof (cases rule: run_directive_cases)
    case (tool_failed e w')
    with Cons.prems d step have "st' = st1" by simp
    with tool_failed(3) have
      "log st' = log st @ [CallTool n (tool_args E p) (Inl e)]
       \<and> messages st' = messages st @ executed_entries E [CallTool n (tool_args E p) (Inl e)]"
      by simp
    then show ?thesis by blast
  next
    case (chat_failed c w' e w'')
    let ?new = "[CallTool n (tool_args E p) (Inr c),
                 ChatCompletion (system_message # messages st @ tool_entries E n c) 1000 (Inl e)]"
    from chat_failed Cons.prems d step have "st' = st1" by simp
    with chat_failed(4) have
      "log st' = log st @ ?new \<and> messages st' = messages st @ executed_entries E ?new"
      by simp
    then show ?thesis by blast
  next
    case (ok c w' f w'')
    let ?new = "[CallTool n (tool_args E p) (Inr c),
                 ChatCompletion (system_message # messages st @ tool_entries E n c) 1000 (Inr f)]"
    from ok Cons.prems d step have rest: "for_matches E ds st1 = (r, st')" by simp
    from Cons.IH [OF rest] obtain new where new:
      "log st' = log st1 @ new" "messages st' = messages st1 @ executed_entries E new"
      by blast
    have "log st' = log st @ (?new @ new)" using new(1) ok(4) by simp
    moreover have "messages st' = messages st @ executed_entries E (?new @ new)"
      using new(2) ok(4) by simp
    ultimately show ?thesis by blast
  qed
qed


lemma dispatched_append: "dispatched (xs @ ys) = dispatched xs @ dispatched ys"
  by (induction xs rule: dispatched.induct) simp_all

lemma prompts_append: "prompts (xs @ ys) = prompts xs @ prompts ys"
  by (induction xs rule: prompts.induct) simp_all

lemma executed_entries_append:
  "executed_entries E (xs @ ys) = executed_entries E xs @ executed_entries E ys"
  by (induction E xs rule: executed_entries.induct) simp_all

lemma for_matches_failure:
  "for_matches E ds st = (r, st') \<Longrightarrow>
     \<exists>new. log st' = log st @ new
        \<and> (\<forall>ev \<in> set (butlast new). failure ev = None)
        \<and> (case r of
             Inr u \<Rightarrow> \<forall>ev \<in> set new. failure ev = None
           | Inl e \<Rightarrow> new \<noteq> [] \<and> failure (last new) = Some e)"
proof (induction ds arbitrary: st)
  case Nil
  then have "log st' = log st @ [] \<and> r = Inr ()" by auto
  then show ?case by fastforce
next
  case (Cons d ds)
  obtain n p where d: "d = (n, p)" by (cases d)
  obtain r1 st1 where step: "run_directive E (n, p) st = (r1, st1)"
    by (cases "run_directive E (n, p) st")
  from step show ?case
  proof (cases rule: run_directive_cases)
    case (tool_failed e w')
    let ?new = "[CallTool n (tool_args E p) (Inl e)]"
    from tool_failed Cons.prems d step have "st' = st1" "r = Inl e" by simp_all
    with tool_failed(3) have "log st' = log st @ ?new
       \<and> (\<forall>ev \<in> set (butlast ?new). failure ev = None)
       \<and> (case r of Inr u \<Rightarrow> \<forall>ev \<in> set ?new. failure ev = None
           | Inl e \<Rightarrow> ?new \<noteq> [] \<and> failure (last ?new) = Some e)"
      by simp
    then show ?thesis by blast
  next
    case (chat_failed c w' e w'')
    let ?new = "[CallTool n (tool_args E p) (Inr c),
                 ChatCompletion (system_message # messages st @ tool_entries E n c) 1000 (Inl e)]"
    from chat_failed Cons.prems d step have "st' = st1" "r = Inl e" by simp_all
    with chat_failed(4) have "log st' = log st @ ?new
       \<and> (\<forall>ev \<in> set (butlast ?new). failure ev = None)
       \<and> (case r of Inr u \<Rightarrow> \<forall>ev \<in> set ?new. failure ev = None
           | Inl e \<Rightarrow> ?new \<noteq> [] \<and> failure (last ?new) = Some e)"
      by simp
    then show ?thesis by blast
  next
    case (ok c w' f w'')
    let ?new = "[CallTool n (tool_args E p) (Inr c),
                 ChatCompletion (system_message # messages st @ tool_entries E n c) 1000 (Inr f)]"
    from ok Cons.prems d step have rest: "for_matches E ds st1 = (r, st')" by simp
    from Cons.IH [OF rest] obtain new where new:
      "log st' = log st1 @ new"
      "\<forall>ev \<in> set (butlast new). failure ev = None"
      "case r of Inr u \<Rightarrow> \<forall>ev \<in> set new. failure ev = None
         | Inl e \<Rightarrow> new \<noteq> [] \<and> failure (last new) = Some e"
      by blast
    have a: "log st' = log st @ (?new @ new)" using new(1) ok(4) by simp
    have b: "\<forall>ev \<in> set (butlast (?new @ new)). failure ev = None"
      using new(2) by (cases "new = []") (auto simp: butlast_append)
    have c: "case r of Inr u \<Rightarrow> \<forall>ev \<in> set (?new @ new). failure ev = None
         | Inl e \<Rightarrow> ?new @ new \<noteq> [] \<and> failure (last (?new @ new)) = Some e"
      using new(3) by (cases r) auto
    from a b c show ?thesis by blast
  qed
qed

lemma for_matches_dispatched:
  "for_matches E ds st = (r, st') \<Longrightarrow>
     \<exists>new. log st' = log st @ new
        \<and> prefix (dispatched new) (map (directive_call E) ds)
        \<and> (\<forall>u. r = Inr u \<longrightarrow> dispatched new = map (directive_call E) ds)"
proof (induction ds arbitrary: st)
  case Nil
  then have "log st' = log st @ [] \<and> dispatched ([] :: 'b event list) = []" by auto
  then show ?case by fastforce
next
  case (Cons d ds)
  obtain n p where d: "d = (n, p)" by (cases d)
  obtain r1 st1 where step: "run_directive E (n, p) st = (r1, st1)"
    by (cases "run_directive E (n, p) st")
  from step show ?case
  proof (cases rule: run_directive_cases)
    case (tool_failed e w')
    let ?new = "[CallTool n (tool_args E p) (Inl e)]"
    from tool_failed Cons.prems d step have "st' = st1" "r = Inl e" by simp_all
    with tool_failed(3) d have "log st' = log st @ ?new
       \<and> prefix (dispatched ?new) (map (directive_call E) (d # ds))
       \<and> (\<forall>u. r = Inr u \<longrightarrow> dispatched ?new = map (directive_call E) (d # ds))"
      by (simp add: directive_call_def)
    then show ?thesis by blast
  next
    case (chat_failed c w' e w'')
    let ?new = "[CallTool n (tool_args E p) (Inr c),
                 ChatCompletion (system_message # messages st @ tool_entries E n c) 1000 (Inl e)]"
    from chat_failed Cons.prems d step have "st' = st1" "r = Inl e" by simp_all
    with chat_failed(4) d have "log st' = log st @ ?new
       \<and> prefix (dispatched ?new) (map (directive_call E) (d # ds))
       \<and> (\<forall>u. r = Inr u \<longrightarrow> dispatched ?new = map (directive_call E) (d # ds))"
      by (simp add: directive_call_def)
    then show ?thesis by blast
  next
    case (ok c w' f w'')
    let ?new = "[CallTool n (tool_args E p) (Inr c),
                 ChatCompletion (system_message # messages st @ tool_entries E n c) 1000 (Inr f)]"
    from ok Cons.prems d step have rest: "for_matches E ds st1 = (r, st')" by simp
    from Cons.IH [OF rest] obtain new where new:
      "log st' = log st1 @ new"
      "prefix (dispatched new) (map (directive_call E) ds)"
      "\<forall>u. r = Inr u \<longrightarrow> dispatched new = map (directive_call E) ds"
      by blast
    have a: "log st' = log st @ (?new @ new)" using new(1) ok(4) by simp
    have b: "prefix (dispatched (?new @ new)) (map (directive_call E) (d # ds))"
      using new(2) d by (simp add: directive_call_def)
    have c: "\<forall>u. r = Inr u \<longrightarrow> dispatched (?new @ new) = map (directive_call E) (d # ds)"
      using new(3) d by (simp add: directive_call_def)
    from a b c show ?thesis by blast
  qed
qed

lemma for_matches_prompts:
  "for_matches E ds st = (r, st') \<Longrightarrow>
     \<exists>new. log st' = log st @ new
        \<and> (\<forall>ms \<in> set (prompts new). \<exists>h. ms = system_message # h
              \<and> prefix (messages st) h \<and> prefix h (messages st'))"
proof (induction ds arbitrary: st)
  case Nil
  then have "log st' = log st @ [] \<and> prompts ([] :: 'b event list) = []" by auto
  then show ?case by fastforce
next
  case (Cons d ds)
  obtain n p where d: "d = (n, p)" by (cases d)
  obtain r1 st1 where step: "run_directive E (n, p) st = (r1, st1)"
    by (cases "run_directive E (n, p) st")
  from step show ?case
  proof (cases rule: run_directive_cases)
    case (tool_failed e w')
    let ?new = "[CallTool n (tool_args E p) (Inl e)]"
    from tool_failed Cons.prems d step have "st' = st1" by simp
    with tool_failed(3) have "log st' = log st @ ?new \<and> prompts ?new = []"
      by simp
    then show ?thesis by fastforce
  next
    case (chat_failed c w' e w'')
    let ?new = "[CallTool n (tool_args E p) (Inr c),
                 ChatCompletion (system_message # messages st @ tool_entries E n c) 1000 (Inl e)]"
    from chat_failed Cons.prems d step have "st' = st1" by simp
    with chat_failed(4) have "log st' = log st @ ?new
       \<and> prompts ?new = [system_message # messages st @ tool_entries E n c]
       \<and> messages st' = messages st @ tool_entries E n c"
      by simp
    then show ?thesis by fastforce
  next
    case (ok c w' f w'')
    let ?new = "[CallTool n (tool_args E p) (Inr c),
                 ChatCompletion (system_message # messages st @ tool_entries E n c) 1000 (Inr f)]"
    from ok Cons.prems d step have rest: "for_matches E ds st1 = (r, st')" by simp
    from Cons.IH [OF rest] obtain new where new:
      "log st' = log st1 @ new"
      "\<forall>ms \<in> set (prompts new). \<exists>h. ms = system_message # h
              \<and> prefix (messages st1) h \<and> prefix h (messages st')"
      by blast
    from for_matches_messages [OF rest] obtain new' where
      "messages st' = messages st1 @ executed_entries E new'" by blast
    with ok(4) have grow: "prefix (messages st @ tool_entries E n c) (messages st')"
      by simp
    have st1: "messages st1 = messages st @ tool_entries E n c" using ok(4) by simp
    have a: "log st' = log st @ (?new @ new)" using new(1) ok(4) by simp
    have b: "\<exists>h. ms = system_message # h \<and> prefix (messages st) h \<and> prefix h (messages st')"
      if "ms \<in> set (prompts (?new @ new))" for ms
    proof (cases "ms \<in> set (prompts new)")
      case True
      with new(2) obtain h where h: "ms = system_message # h"
        "prefix (messages st1) h" "prefix h (messages st')"
        by blast
      from h(2) st1 have "prefix (messages st) h"
        by (metis append_prefixD)
      with h show ?thesis by blast
    next
      case False
      with that have "ms = system_message # messages st @ tool_entries E n c"
        by (simp add: prompts_append)
      with grow show ?thesis by auto
    qed
    from a b show ?thesis by blast
  qed
qed

lemma process_query_cases [consumes 1, case_names list_failed render_failed chat_failed loop]:
  assumes run: "process_query E q w = (r, st)"
  obtains
    e w1 where
      "list_tools E w = (Inl e, w1)"
      "r = Inl e"
      "st = \<lparr>world = w1, messages = [\<lparr>role = ''user'', content = q\<rparr>], final_text = [],
              log = [ListTools (Inl e)]\<rparr>"
  | tools w1 e where
      "list_tools E w = (Inr tools, w1)"
      "system_msg (py_str E) (Some (map to_dict tools)) = Inl e"
      "r = Inl e"
      "st = \<lparr>world = w1, messages = [\<lparr>role = ''user'', content = q\<rparr>], final_text = [],
              log = [ListTools (Inr tools)]\<rparr>"
  | tools w1 sm e w2 where
      "list_tools E w = (Inr tools, w1)"
      "system_msg (py_str E) (Some (map to_dict tools)) = Inr sm"
      "acreate E [\<lparr>role = ''system'', content = sm\<rparr>, \<lparr>role = ''user'', content = q\<rparr>] 1000 w1
         = (Inl e, w2)"
      "r = Inl e"
      "st = \<lparr>world = w2, messages = [\<lparr>role = ''user'', content = q\<rparr>], final_text = [],
              log = [ListTools (Inr tools),
                     ChatCompletion [\<lparr>role = ''system'', content = sm\<rparr>,
                                     \<lparr>role = ''user'', content = q\<rparr>] 1000 (Inl e)]\<rparr>"
  | tools w1 sm r0 w2 rl where
      "list_tools E w = (Inr tools, w1)"
      "system_msg (py_str E) (Some (map to_dict tools)) = Inr sm"
      "acreate E [\<lparr>role = ''system'', content = sm\<rparr>, \<lparr>role = ''user'', content = q\<rparr>] 1000 w1
         = (Inr r0, w2)"
      "for_matches E (findall r0)
         \<lparr>world = w2, messages = [\<lparr>role = ''user'', content = q\<rparr>], final_text = [r0],
          log = [ListTools (Inr tools),
                 ChatCompletion [\<lparr>role = ''system'', content = sm\<rparr>,
                                 \<lparr>role = ''user'', content = q\<rparr>] 1000 (Inr r0)]\<rparr> = (rl, st)"
      "r = (case rl of Inl e \<Rightarrow> Inl e | Inr u \<Rightarrow> Inr (join ''\<newline>'' (final_text st)))"
proof -
  obtain lr w1 where lt: "list_tools E w = (lr, w1)" by (cases "list_tools E w")
  show thesis
  proof (cases lr)
    case (Inl e)
    with run lt have "r = Inl e"
      "st = \<lparr>world = w1, messages = [\<lparr>role = ''user'', content = q\<rparr>], final_text = [],
              log = [ListTools (Inl e)]\<rparr>"
      by (auto simp: process_query_def)
    with lt Inl show thesis by (intro that(1) [of e w1]) simp_all
  next
    case tools: (Inr tools)
    show thesis
    proof (cases "system_msg (py_str E) (Some (map to_dict tools))")
      case (Inl e)
      with run lt tools have "r = Inl e"
        "st = \<lparr>world = w1, messages = [\<lparr>role = ''user'', content = q\<rparr>], final_text = [],
              log = [ListTools (Inr tools)]\<rparr>"
        by (auto simp: process_query_def openai_chat_def)
      with lt tools Inl show thesis by (intro that(2) [of tools w1 e]) simp_all
    next
      case sm: (Inr sm)
      let ?m0 = "[\<lparr>role = ''system'', content = sm\<rparr>, \<lparr>role = ''user'', content = q\<rparr>]"
      obtain cr w2 where ac: "acreate E ?m0 1000 w1 = (cr, w2)"
        by (cases "acreate E ?m0 1000 w1")
      show thesis
      proof (cases cr)
        case (Inl e)
        with run lt tools sm ac have "r = Inl e"
          "st = \<lparr>world = w2, messages = [\<lparr>role = ''user'', content = q\<rparr>], final_text = [],
              log = [ListTools (Inr tools), ChatCompletion ?m0 1000 (Inl e)]\<rparr>"
          by (auto simp: process_query_def openai_chat_def Let_def)
        with lt tools sm ac Inl show thesis by (intro that(3) [of tools w1 sm e w2]) simp_all
      next
        case r0: (Inr r0)
        let ?st3 = "\<lparr>world = w2, messages = [\<lparr>role = ''user'', content = q\<rparr>],
                     final_text = [r0],
                     log = [ListTools (Inr tools), ChatCompletion ?m0 1000 (Inr r0)]\<rparr>"
        obtain rl st4 where fm: "for_matches E (findall r0) ?st3 = (rl, st4)"
          by (cases "for_matches E (findall r0) ?st3")
        from run lt tools sm ac r0 fm
        have "st = st4" "r = (case rl of Inl e \<Rightarrow> Inl e | Inr u \<Rightarrow> Inr (join ''\<newline>'' (final_text st4)))"
          by (auto simp: process_query_def openai_chat_def Let_def split: sum.splits)
        with lt tools sm ac r0 fm show thesis
          by (intro that(4) [of tools w1 sm r0 w2 rl]) (simp_all split: sum.splits)
      qed
    qed
  qed
qed


lemma for_matches_log: "for_matches E ds st = (r, st') \<Longrightarrow> \<exists>new. log st' = log st @ new"
  using for_matches_messages by blast

section \<open>The pattern, characterised\<close>

lemma strip_lit_iff: "strip_lit p s = Some r \<longleftrightarrow> s = p @ r"
  by (induction p s rule: strip_lit.induct) auto

lemma lazy_dots_SomeD:
  "lazy_dots s = Some (g, r) \<Longrightarrow>
     s = g @ CHR '']'' # r \<and> CHR '']'' \<notin> set g \<and> newline \<notin> set g"
  by (induction s arbitrary: g) (auto simp: is_dot_def split: if_splits option.splits)

lemma lazy_dots_SomeI:
  "CHR '']'' \<notin> set g \<Longrightarrow> newline \<notin> set g \<Longrightarrow> lazy_dots (g @ CHR '']'' # r) = Some (g, r)"
  by (induction g) (auto simp: is_dot_def)

lemma space_not_word: "\<not> is_word CHR '' ''"
  by (simp add: is_word_def code_def)

lemma takeWhile_word_space:
  "\<forall>x \<in> set n. is_word x \<Longrightarrow> takeWhile is_word (n @ CHR '' '' # t) = n"
  by (induction n) (simp_all add: space_not_word)

lemma dropWhile_word_space:
  "\<forall>x \<in> set n. is_word x \<Longrightarrow> dropWhile is_word (n @ CHR '' '' # t) = CHR '' '' # t"
  by (induction n) (simp_all add: space_not_word)

lemma match_here_iff:
  "match_here s = Some ((n, a), rest) \<longleftrightarrow>
     s = tool_call_open @ n @ '' '' @ a @ '']'' @ rest
     \<and> n \<noteq> [] \<and> (\<forall>x \<in> set n. is_word x)
     \<and> a \<noteq> [] \<and> newline \<notin> set a \<and> CHR '']'' \<notin> set (tl a)"
  (is "?L \<longleftrightarrow> ?R")
proof
  assume ?L
  then obtain s1 sp s3 d s4 g where
    a: "strip_lit tool_call_open s = Some s1"
    and n: "n = takeWhile is_word s1" "n \<noteq> []"
    and b: "dropWhile is_word s1 = sp # s3" "sp = CHR '' ''"
    and c: "s3 = d # s4" "is_dot d"
    and d: "lazy_dots s4 = Some (g, rest)" "a = d # g"
    by (auto simp: match_here_def Let_def split: option.splits list.splits if_splits)
  from a have s: "s = tool_call_open @ s1" by (simp add: strip_lit_iff)
  have "s1 = takeWhile is_word s1 @ dropWhile is_word s1" by simp
  with n b c have s1: "s1 = n @ '' '' @ d # s4" by simp
  from lazy_dots_SomeD [OF d(1)]
  have s4: "s4 = g @ CHR '']'' # rest" "CHR '']'' \<notin> set g" "newline \<notin> set g"
    by simp_all
  from n(1) have "\<forall>x \<in> set n. is_word x" by (auto dest: set_takeWhileD)
  with s s1 s4 n(2) c(2) d(2) show ?R by (simp add: is_dot_def)
next
  assume r: ?R
  then obtain d g where a: "a = d # g" by (cases a) auto
  from r a have g: "CHR '']'' \<notin> set g" "newline \<notin> set g" "d \<noteq> newline" by auto
  from r have w: "\<forall>x \<in> set n. is_word x" and ne: "n \<noteq> []" by simp_all
  from r a have s: "s = tool_call_open @ (n @ CHR '' '' # d # g @ CHR '']'' # rest)" by simp
  have sl: "strip_lit tool_call_open s = Some (n @ CHR '' '' # d # g @ CHR '']'' # rest)"
    unfolding strip_lit_iff by (rule s)
  have ld: "lazy_dots (g @ CHR '']'' # rest) = Some (g, rest)"
    using g by (simp add: lazy_dots_SomeI)
  show ?L
    using sl ld ne g(3) a
    by (simp add: match_here_def Let_def takeWhile_word_space [OF w]
        dropWhile_word_space [OF w] is_dot_def)
qed

lemma match_here_bracket: "c \<noteq> CHR ''['' \<Longrightarrow> match_here (c # cs) = None"
  by (simp add: match_here_def tool_call_open_def)

lemma findall_skip: "CHR ''['' \<notin> set pre \<Longrightarrow> findall (pre @ s) = findall s"
  by (induction pre) (auto simp: match_here_bracket)

lemma findall_no_bracket: "CHR ''['' \<notin> set s \<Longrightarrow> findall s = []"
  using findall_skip [of s "[]"] by simp

lemma findall_match: "match_here s = Some (m, r) \<Longrightarrow> findall s = m # findall r"
  by (cases s) (simp_all add: match_here_def tool_call_open_def)

lemma findall_no_match: "match_here (c # cs) = None \<Longrightarrow> findall (c # cs) = findall cs"
  by simp


lemma match_here_token:
  "match_here s = Some ((n, a), r) \<longleftrightarrow> s = directive_token n a @ r \<and> token_shape n a"
  unfolding match_here_iff directive_token_def token_shape_def tool_call_open_def
  by (auto simp: list_all_iff)



lemma findall_first_occurrence:
  assumes "s = pre @ directive_token n a @ r"
    and "token_shape n a"
    and "\<And>pre' n' a' r'. s = pre' @ directive_token n' a' @ r' \<Longrightarrow> token_shape n' a'
           \<Longrightarrow> length pre \<le> length pre'"
  shows "findall s = (n, a) # findall r"
  using assms
proof (induction pre arbitrary: s)
  case Nil
  then have "match_here s = Some ((n, a), r)" by (simp add: match_here_token)
  then show ?case by (rule findall_match)
next
  case (Cons c pre)
  let ?s0 = "pre @ directive_token n a @ r"
  have s: "s = c # ?s0" using Cons.prems(1) by simp
  have "match_here (c # ?s0) = None"
  proof (cases "match_here (c # ?s0)")
    case None
    then show ?thesis .
  next
    case (Some x)
    obtain n' a' r' where "x = ((n', a'), r')" by (cases x) auto
    with Some s have "s = [] @ directive_token n' a' @ r'" "token_shape n' a'"
      by (simp_all add: match_here_token)
    from Cons.prems(3) [OF this] show ?thesis by simp
  qed
  then have "findall s = findall ?s0" by (simp add: s)
  also have "\<dots> = (n, a) # findall r"
  proof (rule Cons.IH [OF refl Cons.prems(2)])
    fix pre' n' a' r'
    assume "?s0 = pre' @ directive_token n' a' @ r'" and sh: "token_shape n' a'"
    then have "s = (c # pre') @ directive_token n' a' @ r'" by (simp add: s)
    from Cons.prems(3) [OF this sh] show "length pre \<le> length pre'" by simp
  qed
  finally show ?case .
qed

lemma findall_Cons_occurrence:
  "findall s = (n, a) # ms \<Longrightarrow>
     \<exists>pre r. s = pre @ directive_token n a @ r \<and> token_shape n a
        \<and> (\<forall>pre' n' a' r'. s = pre' @ directive_token n' a' @ r' \<and> token_shape n' a'
              \<longrightarrow> length pre \<le> length pre')
        \<and> ms = findall r"
proof (induction s rule: findall.induct)
  case 1
  then show ?case by simp
next
  case (2 c cs)
  show ?case
  proof (cases "match_here (c # cs)")
    case None
    with "2.prems" have "findall cs = (n, a) # ms" by simp
    from "2.IH"(1) [OF None this] obtain pre r where ih:
      "cs = pre @ directive_token n a @ r" "token_shape n a"
      "\<forall>pre' n' a' r'. cs = pre' @ directive_token n' a' @ r' \<and> token_shape n' a'
              \<longrightarrow> length pre \<le> length pre'"
      "ms = findall r"
      by blast
    have min: "length (c # pre) \<le> length pre'"
      if occ: "c # cs = pre' @ directive_token n' a' @ r'" and sh: "token_shape n' a'"
      for pre' n' a' r'
    proof (cases pre')
      case Nil
      with occ sh have "match_here (c # cs) = Some ((n', a'), r')"
        by (simp add: match_here_token)
      with None show ?thesis by simp
    next
      case (Cons c' p')
      with occ have "cs = p' @ directive_token n' a' @ r'" by simp
      with ih(3) sh have "length pre \<le> length p'" by blast
      with Cons show ?thesis by simp
    qed
    have "c # cs = (c # pre) @ directive_token n a @ r" using ih(1) by simp
    with ih(2,4) min show ?thesis by blast
  next
    case (Some x)
    obtain m r where x: "x = (m, r)" by (cases x)
    with Some "2.prems" have m: "m = (n, a)" and ms: "ms = findall r" by simp_all
    from Some x m have "c # cs = [] @ directive_token n a @ r" "token_shape n a"
      by (simp_all add: match_here_token)
    moreover have "\<forall>pre' n' a' r'. c # cs = pre' @ directive_token n' a' @ r' \<and> token_shape n' a'
              \<longrightarrow> length ([] :: string) \<le> length pre'"
      by simp
    ultimately show ?thesis using ms by blast
  qed
qed

lemma findall_Nil_iff:
  "findall s = [] \<longleftrightarrow>
     (\<forall>pre n a r. s = pre @ directive_token n a @ r \<longrightarrow> \<not> token_shape n a)"
proof
  assume e: "findall s = []"
  show "\<forall>pre n a r. s = pre @ directive_token n a @ r \<longrightarrow> \<not> token_shape n a"
  proof (intro allI impI notI)
    fix pre n a r
    assume s: "s = pre @ directive_token n a @ r" and sh: "token_shape n a"
    then have m: "match_here (directive_token n a @ r) = Some ((n, a), r)"
      by (simp add: match_here_token)
    have "findall (pre @ directive_token n a @ r) \<noteq> []"
    proof (induction pre)
      case Nil
      from findall_match [OF m] show ?case by simp
    next
      case (Cons c pre)
      then show ?case by (auto split: option.splits)
    qed
    with e s show False by simp
  qed
next
  assume none: "\<forall>pre n a r. s = pre @ directive_token n a @ r \<longrightarrow> \<not> token_shape n a"
  show "findall s = []"
  proof (cases "findall s")
    case Nil
    then show ?thesis .
  next
    case (Cons m ms)
    obtain n a where "m = (n, a)" by (cases m)
    with Cons findall_Cons_occurrence [of s n a ms] none show ?thesis by blast
  qed
qed

lemma findall_Cons_iff:
  "findall s = (n, a) # ms \<longleftrightarrow>
     (\<exists>pre r. s = pre @ directive_token n a @ r \<and> token_shape n a
        \<and> (\<forall>pre' n' a' r'. s = pre' @ directive_token n' a' @ r' \<and> token_shape n' a'
              \<longrightarrow> length pre \<le> length pre')
        \<and> ms = findall r)"
proof
  assume "findall s = (n, a) # ms"
  then show "\<exists>pre r. s = pre @ directive_token n a @ r \<and> token_shape n a
        \<and> (\<forall>pre' n' a' r'. s = pre' @ directive_token n' a' @ r' \<and> token_shape n' a'
              \<longrightarrow> length pre \<le> length pre')
        \<and> ms = findall r"
    by (rule findall_Cons_occurrence)
next
  assume "\<exists>pre r. s = pre @ directive_token n a @ r \<and> token_shape n a
        \<and> (\<forall>pre' n' a' r'. s = pre' @ directive_token n' a' @ r' \<and> token_shape n' a'
              \<longrightarrow> length pre \<le> length pre')
        \<and> ms = findall r"
  then obtain pre r where s: "s = pre @ directive_token n a @ r" and sh: "token_shape n a"
    and min: "\<forall>pre' n' a' r'. s = pre' @ directive_token n' a' @ r' \<and> token_shape n' a'
              \<longrightarrow> length pre \<le> length pre'"
    and ms: "ms = findall r"
    by blast
  have "findall s = (n, a) # findall r"
  proof (rule findall_first_occurrence [OF s sh])
    fix pre' n' a' r'
    assume "s = pre' @ directive_token n' a' @ r'" "token_shape n' a'"
    with min show "length pre \<le> length pre'" by blast
  qed
  with ms show "findall s = (n, a) # ms" by simp
qed

lemma bracket_not_word: "\<not> is_word CHR ''[''"
  by (simp add: is_word_def code_def)

lemma lazy_dots_newline:
  "newline \<in> set g \<Longrightarrow> CHR '']'' \<notin> set g \<Longrightarrow> lazy_dots (g @ t) = None"
  by (induction g) (auto simp: is_dot_def)

lemma match_here_multiline:
  assumes w: "\<forall>x \<in> set n. is_word x"
    and nl: "newline \<in> set a"
    and br: "CHR '']'' \<notin> set (tl a)"
  shows "match_here (''[TOOL_CALL: '' @ n @ '' '' @ a @ '']'' @ rest) = None"
proof -
  from nl obtain d g where a: "a = d # g" by (cases a) auto
  have sl: "strip_lit tool_call_open (''[TOOL_CALL: '' @ n @ '' '' @ a @ '']'' @ rest)
      = Some (n @ CHR '' '' # d # g @ CHR '']'' # rest)"
    unfolding strip_lit_iff by (simp add: tool_call_open_def a)
  show ?thesis
  proof (cases "d = newline")
    case True
    with sl show ?thesis
      by (simp add: match_here_def Let_def takeWhile_word_space [OF w]
          dropWhile_word_space [OF w] is_dot_def)
  next
    case False
    with nl br a have "newline \<in> set g" "CHR '']'' \<notin> set g" by auto
    then have "lazy_dots (g @ CHR '']'' # rest) = None" by (rule lazy_dots_newline)
    with sl show ?thesis
      by (simp add: match_here_def Let_def takeWhile_word_space [OF w]
          dropWhile_word_space [OF w])
  qed
qed

lemma findall_multiline:
  assumes w: "\<forall>x \<in> set n. is_word x"
    and nl: "newline \<in> set a"
    and br: "CHR '']'' \<notin> set (tl a)"
    and nb: "CHR ''['' \<notin> set pre \<union> set a \<union> set rest"
  shows "findall (pre @ ''[TOOL_CALL: '' @ n @ '' '' @ a @ '']'' @ rest) = []"
proof -
  let ?t = "''TOOL_CALL: '' @ n @ '' '' @ a @ '']'' @ rest"
  from nb have "findall (pre @ ''[TOOL_CALL: '' @ n @ '' '' @ a @ '']'' @ rest)
      = findall (''[TOOL_CALL: '' @ n @ '' '' @ a @ '']'' @ rest)"
    by (intro findall_skip) simp
  also have "\<dots> = findall (CHR ''['' # ?t)" by simp
  also have "\<dots> = findall ?t"
    using match_here_multiline [OF w nl br, of rest] by simp
  also have "\<dots> = []"
  proof (rule findall_no_bracket)
    from w have "CHR ''['' \<notin> set n" using bracket_not_word by blast
    with nb show "CHR ''['' \<notin> set ?t" by simp
  qed
  finally show ?thesis .
qed


section \<open>Queries without a match\<close>

lemma process_query_no_match:
  assumes run: "process_query E q w = (r, st)"
    and init: "initial_response (log st) = Some r0"
    and none: "findall r0 = []"
  shows "r = Inr r0 \<and> dispatched (log st) = [] \<and> length (log st) = 2"
  using run
proof (cases rule: process_query_cases)
  case (list_failed e w1)
  with init show ?thesis by simp
next
  case (render_failed tools w1 e)
  with init show ?thesis by simp
next
  case (chat_failed tools w1 sm e w2)
  with init show ?thesis by simp
next
  case (loop tools w1 sm r0' w2 rl)
  from for_matches_log [OF loop(4)] obtain new where
    "log st = [ListTools (Inr tools),
               ChatCompletion [\<lparr>role = ''system'', content = sm\<rparr>,
                               \<lparr>role = ''user'', content = q\<rparr>] 1000 (Inr r0')] @ new"
    by auto
  with init have "r0' = r0" by simp
  with loop(4) none have "rl = Inr ()" and
    "st = \<lparr>world = w2, messages = [\<lparr>role = ''user'', content = q\<rparr>], final_text = [r0],
           log = [ListTools (Inr tools),
                  ChatCompletion [\<lparr>role = ''system'', content = sm\<rparr>,
                                  \<lparr>role = ''user'', content = q\<rparr>] 1000 (Inr r0)]\<rparr>"
    by simp_all
  with loop(5) show ?thesis by simp
qed

section \<open>Whole queries\<close>

lemma process_query_loop:
  assumes run: "process_query E q w = (r, st)"
    and init: "initial_response (log st) = Some r0"
  obtains tools sm w2 rl where
    "system_msg (py_str E) (Some (map to_dict tools)) = Inr sm"
    "for_matches E (findall r0)
       \<lparr>world = w2, messages = [\<lparr>role = ''user'', content = q\<rparr>], final_text = [r0],
        log = [ListTools (Inr tools),
               ChatCompletion [\<lparr>role = ''system'', content = sm\<rparr>,
                               \<lparr>role = ''user'', content = q\<rparr>] 1000 (Inr r0)]\<rparr> = (rl, st)"
    "r = (case rl of Inl e \<Rightarrow> Inl e | Inr u \<Rightarrow> Inr (join ''\<newline>'' (final_text st)))"
  using run
proof (cases rule: process_query_cases)
  case (list_failed e w1)
  with init show ?thesis by simp
next
  case (render_failed tools w1 e)
  with init show ?thesis by simp
next
  case (chat_failed tools w1 sm e w2)
  with init show ?thesis by simp
next
  case (loop tools w1 sm r0' w2 rl)
  from for_matches_log [OF loop(4)] obtain new where
    "log st = [ListTools (Inr tools),
               ChatCompletion [\<lparr>role = ''system'', content = sm\<rparr>,
                               \<lparr>role = ''user'', content = q\<rparr>] 1000 (Inr r0')] @ new"
    by auto
  with init have "r0' = r0" by simp
  with loop show ?thesis by (intro that [of tools sm w2 rl]) simp_all
qed


lemma process_query_failure:
  assumes run: "process_query E q w = (r, st)"
  shows "log st \<noteq> []
    \<and> (\<forall>ev \<in> set (butlast (log st)). failure ev = None)
    \<and> (case r of
         Inr out \<Rightarrow> \<forall>ev \<in> set (log st). failure ev = None
       | Inl e \<Rightarrow> failure (last (log st)) = Some e
           \<or> (\<exists>tools. log st = [ListTools (Inr tools)]
                 \<and> system_msg (py_str E) (Some (map to_dict tools)) = Inl e))"
  using run
proof (cases rule: process_query_cases)
  case (list_failed e w1)
  then have "log st = [ListTools (Inl e)]" "r = Inl e" by simp_all
  then show ?thesis by simp
next
  case (render_failed tools w1 e)
  then have "log st = [ListTools (Inr tools)]" "r = Inl e"
    "system_msg (py_str E) (Some (map to_dict tools)) = Inl e" by simp_all
  then show ?thesis by simp
next
  case (chat_failed tools w1 sm e w2)
  then have "log st = [ListTools (Inr tools),
      ChatCompletion [\<lparr>role = ''system'', content = sm\<rparr>,
                      \<lparr>role = ''user'', content = q\<rparr>] 1000 (Inl e)]" "r = Inl e"
    by simp_all
  then show ?thesis by simp
next
  case (loop tools w1 sm r0 w2 rl)
  let ?pre = "[ListTools (Inr tools),
               ChatCompletion [\<lparr>role = ''system'', content = sm\<rparr>,
                               \<lparr>role = ''user'', content = q\<rparr>] 1000 (Inr r0)]"
  from for_matches_failure [OF loop(4)] obtain new where new:
    "log st = ?pre @ new"
    "\<forall>ev \<in> set (butlast new). failure ev = None"
    "case rl of Inr u \<Rightarrow> \<forall>ev \<in> set new. failure ev = None
       | Inl e \<Rightarrow> new \<noteq> [] \<and> failure (last new) = Some e"
    by auto
  have pre: "\<forall>ev \<in> set ?pre. failure ev = None" by simp
  have a: "log st \<noteq> []" using new(1) by simp
  have b: "\<forall>ev \<in> set (butlast (log st)). failure ev = None"
  proof (cases "new = []")
    case True
    with new(1) show ?thesis by simp
  next
    case False
    then have "butlast (log st) = ?pre @ butlast new"
      using new(1) by (simp add: butlast_append)
    with new(2) pre show ?thesis by auto
  qed
  have c: "case r of
         Inr out \<Rightarrow> \<forall>ev \<in> set (log st). failure ev = None
       | Inl e \<Rightarrow> failure (last (log st)) = Some e
           \<or> (\<exists>tools. log st = [ListTools (Inr tools)]
                 \<and> system_msg (py_str E) (Some (map to_dict tools)) = Inl e)"
  proof (cases rl)
    case (Inl e)
    with new(3) have ne: "new \<noteq> []" and l: "failure (last new) = Some e" by simp_all
    from ne new(1) have "last (log st) = last new" by simp
    with l loop(5) Inl show ?thesis by simp
  next
    case (Inr u)
    with new(3) have "\<forall>ev \<in> set new. failure ev = None" by simp
    with pre new(1) have "\<forall>ev \<in> set (log st). failure ev = None" by auto
    with loop(5) Inr show ?thesis by simp
  qed
  from a b c show ?thesis by (intro conjI)
qed

lemma failed_event_last:
  assumes run: "process_query E q w = (r, st)"
    and ev: "ev \<in> set (log st)"
    and f: "failure ev = Some e"
  shows "r = Inl e \<and> last (log st) = ev"
proof -
  from process_query_failure [OF run] have ne: "log st \<noteq> []"
    and bl: "\<forall>ev \<in> set (butlast (log st)). failure ev = None"
    and c: "case r of
         Inr out \<Rightarrow> \<forall>ev \<in> set (log st). failure ev = None
       | Inl e \<Rightarrow> failure (last (log st)) = Some e
           \<or> (\<exists>tools. log st = [ListTools (Inr tools)]
                 \<and> system_msg (py_str E) (Some (map to_dict tools)) = Inl e)"
    by simp_all
  from ne have "set (butlast (log st) @ [last (log st)]) = set (log st)" by simp
  then have "set (log st) = set (butlast (log st)) \<union> {last (log st)}"
    by (simp only: set_append list.set)
  with ev have "ev \<in> set (butlast (log st)) \<or> ev = last (log st)" by blast
  with f bl have l: "last (log st) = ev" by auto
  show ?thesis
  proof (cases r)
    case (Inl e')
    with c have "failure (last (log st)) = Some e'
           \<or> (\<exists>tools. log st = [ListTools (Inr tools)])" by auto
    then have "e' = e"
    proof
      assume "failure (last (log st)) = Some e'"
      with l f show ?thesis by simp
    next
      assume "\<exists>tools. log st = [ListTools (Inr tools)]"
      then obtain tools where "log st = [ListTools (Inr tools)]" ..
      with ev f show ?thesis by simp
    qed
    with Inl l show ?thesis by simp
  next
    case (Inr out)
    with c have "\<forall>ev \<in> set (log st). failure ev = None" by simp
    with ev f show ?thesis by simp
  qed
qed

section \<open>The loop against its specification\<close>

lemma rounds_Cons_SomeE:
  assumes "rounds E ((n, p) # ds) w h = Some (fs, evs, w', h')"
  obtains c w1 f w2 fs' evs' where
    "call_tool E n (tool_args E p) w = (Inr c, w1)"
    "acreate E (system_message # h @ tool_entries E n c) 1000 w1 = (Inr f, w2)"
    "rounds E ds w2 (h @ tool_entries E n c) = Some (fs', evs', w', h')"
    "fs = f # fs'"
    "evs = CallTool n (tool_args E p) (Inr c)
           # ChatCompletion (system_message # h @ tool_entries E n c) 1000 (Inr f) # evs'"
  using assms
  by (auto simp: Let_def tool_args_def tool_entries_def system_message_def
      split: prod.splits sum.splits option.splits)

lemma rounds_Cons_SomeI:
  assumes "call_tool E n (tool_args E p) w = (Inr c, w1)"
    and "acreate E (system_message # h @ tool_entries E n c) 1000 w1 = (Inr f, w2)"
    and "rounds E ds w2 (h @ tool_entries E n c) = Some (fs', evs', w', h')"
  shows "rounds E ((n, p) # ds) w h =
     Some (f # fs',
           CallTool n (tool_args E p) (Inr c)
             # ChatCompletion (system_message # h @ tool_entries E n c) 1000 (Inr f) # evs',
           w', h')"
  using assms
  by (simp add: Let_def tool_args_def tool_entries_def system_message_def)

lemma for_matches_rounds:
  "rounds E ds (world st) (messages st) = Some (fs, evs, w', h') \<Longrightarrow>
     for_matches E ds st =
       (Inr (), st\<lparr>world := w', messages := h', final_text := final_text st @ fs,
                   log := log st @ evs\<rparr>)"
proof (induction ds arbitrary: st fs evs)
  case Nil
  then show ?case by simp
next
  case (Cons d ds)
  obtain n p where d: "d = (n, p)" by (cases d)
  from Cons.prems [unfolded d] show ?case
  proof (cases rule: rounds_Cons_SomeE)
    case (1 c w1 f w2 fs' evs')
    let ?st1 = "st\<lparr>world := w2, messages := messages st @ tool_entries E n c,
        final_text := final_text st @ [f],
        log := log st @ [CallTool n (tool_args E p) (Inr c),
          ChatCompletion (system_message # messages st @ tool_entries E n c) 1000 (Inr f)]\<rparr>"
    have step: "run_directive E (n, p) st = (Inr (), ?st1)"
      using 1(1,2) by (simp add: run_directive_unfold)
    have "for_matches E ds ?st1 =
        (Inr (), ?st1\<lparr>world := w', messages := h', final_text := final_text ?st1 @ fs',
                       log := log ?st1 @ evs'\<rparr>)"
      by (rule Cons.IH) (simp add: 1(3))
    with step 1(4,5) d show ?thesis by simp
  qed
qed


lemma for_matches_append:
  "for_matches E (ds1 @ ds2) st =
     (case for_matches E ds1 st of
        (Inl e, st') \<Rightarrow> (Inl e, st')
      | (Inr u, st') \<Rightarrow> for_matches E ds2 st')"
  by (induction ds1 arbitrary: st) (auto split: prod.splits sum.splits)


lemma rounds_append:
  "rounds E ds1 w h = Some (fs1, evs1, wa, ha) \<Longrightarrow>
     rounds E (ds1 @ ds2) w h =
       (case rounds E ds2 wa ha of
          None \<Rightarrow> None
        | Some (fs2, evs2, w', h') \<Rightarrow> Some (fs1 @ fs2, evs1 @ evs2, w', h'))"
proof (induction ds1 arbitrary: w h fs1 evs1)
  case Nil
  then show ?case by (auto split: option.splits)
next
  case (Cons d ds1)
  obtain n p where d: "d = (n, p)" by (cases d)
  from Cons.prems [unfolded d] show ?case
  proof (cases rule: rounds_Cons_SomeE)
    case (1 c w1 f w2 fs' evs')
    from Cons.IH [OF 1(3)] 1(1,2,4,5) d show ?thesis
      by (auto simp: Let_def tool_args_def tool_entries_def system_message_def
          split: option.splits)
  qed
qed


lemma process_query_pinned:
  assumes lt: "list_tools E w = (Inr tools, w1)"
    and sm: "system_msg (py_str E) (Some (map to_dict tools)) = Inr sm"
    and ac: "acreate E [\<lparr>role = ''system'', content = sm\<rparr>, \<lparr>role = ''user'', content = q\<rparr>]
               1000 w1 = (Inr r0, w2)"
  shows "process_query E q w =
     (case for_matches E (findall r0)
             \<lparr>world = w2, messages = [\<lparr>role = ''user'', content = q\<rparr>], final_text = [r0],
              log = [ListTools (Inr tools),
                     ChatCompletion [\<lparr>role = ''system'', content = sm\<rparr>,
                                     \<lparr>role = ''user'', content = q\<rparr>] 1000 (Inr r0)]\<rparr> of
        (Inl e, st4) \<Rightarrow> (Inl e, st4)
      | (Inr u, st4) \<Rightarrow> (Inr (join ''\<newline>'' (final_text st4)), st4))"
  using lt sm ac by (simp add: process_query_def openai_chat_def Let_def)

lemma process_query_rounds:
  assumes lt: "list_tools E w = (Inr tools, w1)"
    and sm: "system_msg (py_str E) (Some (map to_dict tools)) = Inr sm"
    and ac: "acreate E [\<lparr>role = ''system'', content = sm\<rparr>, \<lparr>role = ''user'', content = q\<rparr>]
               1000 w1 = (Inr r0, w2)"
    and rs: "rounds E (findall r0) w2 [\<lparr>role = ''user'', content = q\<rparr>] = Some (fs, evs, w', h')"
  shows "process_query E q w =
     (Inr (join ''\<newline>'' (r0 # fs)),
      \<lparr>world = w', messages = h', final_text = r0 # fs,
       log = ListTools (Inr tools)
             # ChatCompletion [\<lparr>role = ''system'', content = sm\<rparr>,
                               \<lparr>role = ''user'', content = q\<rparr>] 1000 (Inr r0) # evs\<rparr>)"
proof -
  let ?st3 = "\<lparr>world = w2, messages = [\<lparr>role = ''user'', content = q\<rparr>], final_text = [r0],
              log = [ListTools (Inr tools),
                     ChatCompletion [\<lparr>role = ''system'', content = sm\<rparr>,
                                     \<lparr>role = ''user'', content = q\<rparr>] 1000 (Inr r0)]\<rparr>"
  have "for_matches E (findall r0) ?st3 =
      (Inr (), ?st3\<lparr>world := w', messages := h', final_text := final_text ?st3 @ fs,
                     log := log ?st3 @ evs\<rparr>)"
    using for_matches_rounds [of E "findall r0" ?st3 fs evs w' h'] rs by simp
  then show ?thesis
    by (simp add: process_query_pinned [OF lt sm ac])
qed


lemma process_query_at:
  assumes lt: "list_tools E w = (Inr tools, w1)"
    and sm: "system_msg (py_str E) (Some (map to_dict tools)) = Inr sm"
    and ac: "acreate E [\<lparr>role = ''system'', content = sm\<rparr>, \<lparr>role = ''user'', content = q\<rparr>]
               1000 w1 = (Inr r0, w2)"
    and ds: "findall r0 = ds1 @ (n, p) # ds2"
    and rs: "rounds E ds1 w2 [\<lparr>role = ''user'', content = q\<rparr>] = Some (fs1, evs1, wa, ha)"
  shows "process_query E q w =
     (case run_directive E (n, p)
             \<lparr>world = wa, messages = ha, final_text = r0 # fs1,
              log = ListTools (Inr tools)
                    # ChatCompletion [\<lparr>role = ''system'', content = sm\<rparr>,
                                      \<lparr>role = ''user'', content = q\<rparr>] 1000 (Inr r0) # evs1\<rparr> of
        (Inl e, st') \<Rightarrow> (Inl e, st')
      | (Inr u, st') \<Rightarrow>
          (case for_matches E ds2 st' of
             (Inl e, st4) \<Rightarrow> (Inl e, st4)
           | (Inr u, st4) \<Rightarrow> (Inr (join ''\<newline>'' (final_text st4)), st4)))"
proof -
  let ?st3 = "\<lparr>world = w2, messages = [\<lparr>role = ''user'', content = q\<rparr>], final_text = [r0],
              log = [ListTools (Inr tools),
                     ChatCompletion [\<lparr>role = ''system'', content = sm\<rparr>,
                                     \<lparr>role = ''user'', content = q\<rparr>] 1000 (Inr r0)]\<rparr>"
  have "for_matches E ds1 ?st3 =
      (Inr (), ?st3\<lparr>world := wa, messages := ha, final_text := final_text ?st3 @ fs1,
                     log := log ?st3 @ evs1\<rparr>)"
    using for_matches_rounds [of E ds1 ?st3 fs1 evs1 wa ha] rs by simp
  then show ?thesis
    by (simp add: process_query_pinned [OF lt sm ac] ds for_matches_append
        split: prod.splits sum.splits)
qed

lemma process_query_tool_fails:
  assumes lt: "list_tools E w = (Inr tools, w1)"
    and sm: "system_msg (py_str E) (Some (map to_dict tools)) = Inr sm"
    and ac: "acreate E [\<lparr>role = ''system'', content = sm\<rparr>, \<lparr>role = ''user'', content = q\<rparr>]
               1000 w1 = (Inr r0, w2)"
    and ds: "findall r0 = ds1 @ (n, p) # ds2"
    and rs: "rounds E ds1 w2 [\<lparr>role = ''user'', content = q\<rparr>] = Some (fs1, evs1, wa, ha)"
    and ct: "call_tool E n (tool_args E p) wa = (Inl e, wb)"
  shows "process_query E q w =
     (Inl e,
      \<lparr>world = wb, messages = ha, final_text = r0 # fs1,
       log = ListTools (Inr tools)
             # ChatCompletion [\<lparr>role = ''system'', content = sm\<rparr>,
                               \<lparr>role = ''user'', content = q\<rparr>] 1000 (Inr r0)
             # evs1 @ [CallTool n (tool_args E p) (Inl e)]\<rparr>)"
  using ct by (simp add: process_query_at [OF lt sm ac ds rs] run_directive_unfold)

lemma process_query_followup_fails:
  assumes lt: "list_tools E w = (Inr tools, w1)"
    and sm: "system_msg (py_str E) (Some (map to_dict tools)) = Inr sm"
    and ac: "acreate E [\<lparr>role = ''system'', content = sm\<rparr>, \<lparr>role = ''user'', content = q\<rparr>]
               1000 w1 = (Inr r0, w2)"
    and ds: "findall r0 = ds1 @ (n, p) # ds2"
    and rs: "rounds E ds1 w2 [\<lparr>role = ''user'', content = q\<rparr>] = Some (fs1, evs1, wa, ha)"
    and ct: "call_tool E n (tool_args E p) wa = (Inr c, wb)"
    and fu: "acreate E (system_message # ha @ tool_entries E n c) 1000 wb = (Inl e, wc)"
  shows "process_query E q w =
     (Inl e,
      \<lparr>world = wc, messages = ha @ tool_entries E n c, final_text = r0 # fs1,
       log = ListTools (Inr tools)
             # ChatCompletion [\<lparr>role = ''system'', content = sm\<rparr>,
                               \<lparr>role = ''user'', content = q\<rparr>] 1000 (Inr r0)
             # evs1 @ [CallTool n (tool_args E p) (Inr c),
                       ChatCompletion (system_message # ha @ tool_entries E n c) 1000 (Inl e)]\<rparr>)"
  using ct fu by (simp add: process_query_at [OF lt sm ac ds rs] run_directive_unfold)

lemma process_query_continues:
  assumes lt: "list_tools E w = (Inr tools, w1)"
    and sm: "system_msg (py_str E) (Some (map to_dict tools)) = Inr sm"
    and ac: "acreate E [\<lparr>role = ''system'', content = sm\<rparr>, \<lparr>role = ''user'', content = q\<rparr>]
               1000 w1 = (Inr r0, w2)"
    and ds: "findall r0 = ds1 @ (n, p) # ds2"
    and rs: "rounds E ds1 w2 [\<lparr>role = ''user'', content = q\<rparr>] = Some (fs1, evs1, wa, ha)"
    and ct: "call_tool E n (tool_args E p) wa = (Inr c, wb)"
    and fu: "acreate E (system_message # ha @ tool_entries E n c) 1000 wb = (Inr f, wc)"
    and rs2: "rounds E ds2 wc (ha @ tool_entries E n c) = Some (fs2, evs2, w', h')"
  shows "process_query E q w =
     (Inr (join ''\<newline>'' (r0 # fs1 @ f # fs2)),
      \<lparr>world = w', messages = h', final_text = r0 # fs1 @ f # fs2,
       log = ListTools (Inr tools)
             # ChatCompletion [\<lparr>role = ''system'', content = sm\<rparr>,
                               \<lparr>role = ''user'', content = q\<rparr>] 1000 (Inr r0)
             # evs1 @ CallTool n (tool_args E p) (Inr c)
                 # ChatCompletion (system_message # ha @ tool_entries E n c) 1000 (Inr f)
                 # evs2\<rparr>)"
proof -
  note r2 = rounds_Cons_SomeI [OF ct fu rs2]
  have "rounds E (findall r0) w2 [\<lparr>role = ''user'', content = q\<rparr>] =
      Some (fs1 @ f # fs2,
            evs1 @ CallTool n (tool_args E p) (Inr c)
                 # ChatCompletion (system_message # ha @ tool_entries E n c) 1000 (Inr f)
                 # evs2, w', h')"
    by (simp only: ds rounds_append [OF rs] r2) simp
  from process_query_rounds [OF lt sm ac this] show ?thesis .
qed

lemma tool_args_Inl: "json_loads E p = Inl x \<Longrightarrow> tool_args E p = JObject []"
  by (simp add: tool_args_def)

lemma tool_args_Inr: "json_loads E p = Inr v \<Longrightarrow> tool_args E p = v"
  by (simp add: tool_args_def)





section \<open>The examples, evaluated\<close>

lemma sample_list_tools: "list_tools sample_env w = (Inr sample_tools, Suc w)"
  by (simp add: sample_env_def)

lemma sample_system:
  "system_msg (py_str sample_env) (Some (map to_dict sample_tools)) = Inr sample_system_msg"
  by (simp add: sample_env_def sample_tools_def to_dict_def input_fields_def getitem_def
      tool_line_def sample_system_msg_def)

lemma sample_acreate:
  "acreate sample_env ms k w = (Inr (''Re: '' @ content (last ms)), Suc w)"
  by (simp add: sample_env_def)

lemma sample_call_tool:
  "call_tool sample_env n a w =
     (if n = ''broken'' then Inl (Raised ''tool failed'') else Inr (''result of '' @ n), Suc w)"
  by (simp add: sample_env_def)

lemma sample_str_content: "str_content sample_env c = c"
  by (simp add: sample_env_def)

lemma findall_hello: "findall ''Re: hello'' = []"
  by code_simp

lemma findall_two_calls:
  "findall (''Re: '' @ two_calls) = [(''a'', ''42''), (''b'', ''{city: Paris}'')]"
  by code_simp

lemma findall_second_fails:
  "findall (''Re: '' @ second_fails) = [(''a'', ''42''), (''broken'', ''null'')]"
  by code_simp


lemma rounds_a:
  "rounds sample_env [(''a'', ''42'')] 2 [\<lparr>role = ''user'', content = two_calls\<rparr>]
     = Some ([''Re: result of a''], events_a, 4, after_a)"
  by (simp add: sample_env_def sample_loads_def Let_def events_a_def after_a_def)

lemma rounds_b:
  "rounds sample_env [(''b'', ''{city: Paris}'')] 4 after_a
     = Some ([''Re: result of b''], events_b, 6, after_b)"
  by (simp add: sample_env_def sample_loads_def Let_def events_b_def after_b_def after_a_def)


lemma two_calls_first:
  "acreate sample_env [\<lparr>role = ''system'', content = sample_system_msg\<rparr>,
                       \<lparr>role = ''user'', content = two_calls\<rparr>] 1000 1
     = (Inr (''Re: '' @ two_calls), 2)"
  by (simp add: sample_acreate)

lemma sample_list_tools_0: "list_tools sample_env 0 = (Inr sample_tools, 1)"
  by (simp add: sample_list_tools)

lemma sample_tool_entries:
  "tool_entries sample_env n c =
     [\<lparr>role = ''assistant'', content = ''[Tool '' @ n @ '' executed]''\<rparr>,
      \<lparr>role = ''user'', content = c\<rparr>]"
  by (simp add: tool_entries_def sample_str_content)

lemma two_calls_split_b:
  "findall (''Re: '' @ two_calls) = [(''a'', ''42'')] @ (''b'', ''{city: Paris}'') # []"
  unfolding findall_two_calls by simp

lemma two_calls_split_a:
  "findall (''Re: '' @ two_calls) = [] @ (''a'', ''42'') # [(''b'', ''{city: Paris}'')]"
  unfolding findall_two_calls by simp

lemma sample_loads_malformed:
  "json_loads sample_env ''{city: Paris}''
     = Inl (Raised ''Expecting property name enclosed in double quotes: line 1 column 2 (char 1)'')"
  by (simp add: sample_env_def sample_loads_def)

lemma sample_loads_42: "json_loads sample_env ''42'' = Inr (JInt 42)"
  by (simp add: sample_env_def sample_loads_def)

lemma sample_call_b: "call_tool sample_env ''b'' (JObject []) 4 = (Inr ''result of b'', 5)"
  by (simp add: sample_call_tool)

lemma sample_call_a: "call_tool sample_env ''a'' (JInt 42) 2 = (Inr ''result of a'', 3)"
  by (simp add: sample_call_tool)

lemma sample_followup_b:
  "acreate sample_env (system_message # after_a @ tool_entries sample_env ''b'' ''result of b'')
     1000 5 = (Inr ''Re: result of b'', 6)"
  by (simp add: sample_acreate sample_tool_entries)

lemma sample_followup_a:
  "acreate sample_env
     (system_message # [\<lparr>role = ''user'', content = two_calls\<rparr>]
        @ tool_entries sample_env ''a'' ''result of a'')
     1000 3 = (Inr ''Re: result of a'', 4)"
  by (simp add: sample_acreate sample_tool_entries)

lemma sample_rest_b:
  "rounds sample_env [] 6 (after_a @ tool_entries sample_env ''b'' ''result of b'')
     = Some ([], [], 6, after_b)"
  by (simp add: sample_tool_entries after_b_def)

lemma sample_start:
  "rounds sample_env [] 2 [\<lparr>role = ''user'', content = two_calls\<rparr>]
     = Some ([], [], 2, [\<lparr>role = ''user'', content = two_calls\<rparr>])"
  by simp

lemma sample_rest_a:
  "rounds sample_env [(''b'', ''{city: Paris}'')] 4
     ([\<lparr>role = ''user'', content = two_calls\<rparr>] @ tool_entries sample_env ''a'' ''result of a'')
     = Some ([''Re: result of b''], events_b, 6, after_b)"
proof -
  have "[\<lparr>role = ''user'', content = two_calls\<rparr>] @ tool_entries sample_env ''a'' ''result of a''
      = after_a"
    by (simp add: sample_tool_entries after_a_def)
  then show ?thesis
    by (simp only: rounds_b)
qed

lemma second_fails_first:
  "acreate sample_env [\<lparr>role = ''system'', content = sample_system_msg\<rparr>,
                       \<lparr>role = ''user'', content = second_fails\<rparr>] 1000 1
     = (Inr (''Re: '' @ second_fails), 2)"
  by (simp add: sample_acreate)

lemma second_fails_split:
  "findall (''Re: '' @ second_fails) = [(''a'', ''42'')] @ (''broken'', ''null'') # []"
  unfolding findall_second_fails by simp

lemma rounds_a_second_fails:
  "rounds sample_env [(''a'', ''42'')] 2 [\<lparr>role = ''user'', content = second_fails\<rparr>]
     = Some ([''Re: result of a''],
             [CallTool ''a'' (JInt 42) (Inr ''result of a''),
              ChatCompletion
                [\<lparr>role = ''system'', content = system_msg_base\<rparr>,
                 \<lparr>role = ''user'', content = second_fails\<rparr>,
                 \<lparr>role = ''assistant'', content = ''[Tool a executed]''\<rparr>,
                 \<lparr>role = ''user'', content = ''result of a''\<rparr>] 1000 (Inr ''Re: result of a'')],
             4,
             [\<lparr>role = ''user'', content = second_fails\<rparr>,
              \<lparr>role = ''assistant'', content = ''[Tool a executed]''\<rparr>,
              \<lparr>role = ''user'', content = ''result of a''\<rparr>])"
  by (simp add: sample_env_def sample_loads_def Let_def)

lemma sample_call_broken:
  "call_tool sample_env ''broken'' (tool_args sample_env ''null'') 4
     = (Inl (Raised ''tool failed''), 5)"
  by (simp add: sample_call_tool)

lemma strip_second_fails: "strip second_fails = second_fails"
  by (simp add: strip_def second_fails_def is_space_def code_def)

lemma lower_second_fails: "lower second_fails \<noteq> ''quit''"
  by (simp add: lower_def second_fails_def)

lemma process_query_hello:
  "process_query sample_env ''hello'' w =
     (Inr ''Re: hello'',
      \<lparr>world = Suc (Suc w), messages = [\<lparr>role = ''user'', content = ''hello''\<rparr>],
       final_text = [''Re: hello''],
       log = [ListTools (Inr sample_tools),
              ChatCompletion [\<lparr>role = ''system'', content = sample_system_msg\<rparr>,
                              \<lparr>role = ''user'', content = ''hello''\<rparr>] 1000 (Inr ''Re: hello'')]\<rparr>)"
proof -
  have c: "acreate sample_env [\<lparr>role = ''system'', content = sample_system_msg\<rparr>,
        \<lparr>role = ''user'', content = ''hello''\<rparr>] 1000 (Suc w) = (Inr ''Re: hello'', Suc (Suc w))"
    by (simp add: sample_acreate)
  have r: "rounds sample_env (findall ''Re: hello'') (Suc (Suc w))
        [\<lparr>role = ''user'', content = ''hello''\<rparr>]
      = Some ([], [], Suc (Suc w), [\<lparr>role = ''user'', content = ''hello''\<rparr>])"
    unfolding findall_hello by simp
  from process_query_rounds [OF sample_list_tools sample_system c r] show ?thesis
    by simp
qed

lemma chat_loop_body_hello:
  "chat_loop_body sample_env [''hello''] 5
     = ([''\<newline>Query: '', ''\<newline>Re: hello\<newline>'', ''\<newline>Query: ''], AwaitingInput, 7)"
proof -
  have s: "strip ''hello'' = ''hello''"
    by (simp add: strip_def is_space_def code_def)
  have l: "lower ''hello'' \<noteq> ''quit''"
    by (simp add: lower_def)
  show ?thesis
    using l by (simp add: s process_query_hello Let_def)
qed

lemma sample_call_b_args:
  "call_tool sample_env ''b'' (tool_args sample_env ''{city: Paris}'') 4 = (Inr ''result of b'', 5)"
  by (simp add: sample_call_tool)

lemma b_not_listed: "''b'' \<notin> set (map name sample_tools)"
  by (simp add: sample_tools_def)

section \<open>The claims\<close>

text \<open>
  C4. When the first answer of the model (the answer to the system message with the
  catalog and the query of the user) contains no directive, \<^verbatim>\<open>process_query\<close> returns
  exactly that answer, unchanged, as the whole transcript; the session runs no tool and
  the model is not asked again.
\<close>

theorem no_directive_returns_initial_response:
  assumes "list_tools E w = (Inr tools, w1)"
    and "system_msg (py_str E) (Some (map to_dict tools)) = Inr sm"
    and "acreate E [\<lparr>role = ''system'', content = sm\<rparr>, \<lparr>role = ''user'', content = q\<rparr>]
           1000 w1 = (Inr r0, w2)"
    and "findall r0 = []"
  shows "process_query E q w =
     (Inr r0,
      \<lparr>world = w2, messages = [\<lparr>role = ''user'', content = q\<rparr>], final_text = [r0],
       log = [ListTools (Inr tools),
              ChatCompletion [\<lparr>role = ''system'', content = sm\<rparr>,
                              \<lparr>role = ''user'', content = q\<rparr>] 1000 (Inr r0)]\<rparr>)"
  using assms(4) by (simp add: process_query_pinned [OF assms(1,2,3)])

theorem no_directive_returns_initial_response_witness:
  "list_tools sample_env 0 = (Inr sample_tools, 1)
   \<and> system_msg (py_str sample_env) (Some (map to_dict sample_tools)) = Inr sample_system_msg
   \<and> acreate sample_env [\<lparr>role = ''system'', content = sample_system_msg\<rparr>,
                          \<lparr>role = ''user'', content = ''hello''\<rparr>] 1000 1 = (Inr ''Re: hello'', 2)
   \<and> findall ''Re: hello'' = []
   \<and> process_query sample_env ''hello'' 0 =
     (Inr ''Re: hello'',
      \<lparr>world = 2, messages = [\<lparr>role = ''user'', content = ''hello''\<rparr>],
       final_text = [''Re: hello''],
       log = [ListTools (Inr sample_tools),
              ChatCompletion [\<lparr>role = ''system'', content = sample_system_msg\<rparr>,
                              \<lparr>role = ''user'', content = ''hello''\<rparr>] 1000 (Inr ''Re: hello'')]\<rparr>)"
proof -
  have a: "list_tools sample_env 0 = (Inr sample_tools, 1)"
    by (simp add: sample_list_tools)
  have c: "acreate sample_env [\<lparr>role = ''system'', content = sample_system_msg\<rparr>,
                          \<lparr>role = ''user'', content = ''hello''\<rparr>] 1000 1 = (Inr ''Re: hello'', 2)"
    by (simp add: sample_acreate)
  note t = no_directive_returns_initial_response [OF a sample_system c findall_hello]
  show ?thesis
    by (intro conjI a sample_system c findall_hello t)
qed

text \<open>
  C5. \<^verbatim>\<open>re.findall\<close> with the pattern finds the tokens \<^verbatim>\<open>[TOOL_CALL: <name> <payload>]\<close>
  whose name is one or more word characters and whose payload is on one line and ends
  before the first closing bracket behind its first character (the lazy match): the
  result is empty exactly when the text holds no such token, and otherwise its head is
  the name and the payload of the leftmost one, its tail what is found behind that
  token. The text of the example yields the one directive \<^verbatim>\<open>get_weather\<close> with the
  payload \<^verbatim>\<open>{"city": "Paris"}\<close>, and the arguments are what \<^verbatim>\<open>json.loads\<close> makes of
  that payload.
\<close>

theorem directive_pattern:
  "(findall s = [] \<longleftrightarrow>
      (\<forall>pre n a r. s = pre @ directive_token n a @ r \<longrightarrow> \<not> token_shape n a))
   \<and> (findall s = (n, a) # ms \<longleftrightarrow>
      (\<exists>pre r. s = pre @ directive_token n a @ r \<and> token_shape n a
         \<and> (\<forall>pre' n' a' r'. s = pre' @ directive_token n' a' @ r' \<and> token_shape n' a'
               \<longrightarrow> length pre \<le> length pre')
         \<and> ms = findall r))
   \<and> findall ''Sure! [TOOL_CALL: get_weather {\"city\": \"Paris\"}]''
       = [(''get_weather'', ''{\"city\": \"Paris\"}'')]
   \<and> (json_loads E ''{\"city\": \"Paris\"}'' = Inr v \<longrightarrow>
        map (directive_call E) (findall ''Sure! [TOOL_CALL: get_weather {\"city\": \"Paris\"}]'')
          = [(''get_weather'', v)])"
proof -
  have ex: "findall ''Sure! [TOOL_CALL: get_weather {\"city\": \"Paris\"}]''
      = [(''get_weather'', ''{\"city\": \"Paris\"}'')]"
    by code_simp
  have dec: "json_loads E ''{\"city\": \"Paris\"}'' = Inr v \<longrightarrow>
        map (directive_call E) (findall ''Sure! [TOOL_CALL: get_weather {\"city\": \"Paris\"}]'')
          = [(''get_weather'', v)]"
    by (simp only: ex) (simp add: directive_call_def tool_args_def)
  show ?thesis
    by (intro conjI findall_Nil_iff findall_Cons_iff ex dec)
qed

theorem directive_pattern_witness:
  "findall ''[TOOL_CALL: add_1 {\"a\": 1}] and so on]''
     = (''add_1'', ''{\"a\": 1}'') # findall '' and so on]''
   \<and> json_loads sample_env ''{\"city\": \"Paris\"}'' = Inr (JObject [(''city'', JString ''Paris'')])
   \<and> map (directive_call sample_env)
         (findall ''Sure! [TOOL_CALL: get_weather {\"city\": \"Paris\"}]'')
       = [(''get_weather'', JObject [(''city'', JString ''Paris'')])]"
proof -
  let ?s = "''[TOOL_CALL: add_1 {\"a\": 1}] and so on]''"
  note t = directive_pattern [of ?s "''add_1''" "''{\"a\": 1}''" "findall '' and so on]''"
      sample_env "JObject [(''city'', JString ''Paris'')]"]
  have sh: "token_shape ''add_1'' ''{\"a\": 1}''"
    by (simp add: token_shape_def is_word_def code_def newline_def)
  have dec: "?s = [] @ directive_token ''add_1'' ''{\"a\": 1}'' @ '' and so on]''"
    by (simp add: directive_token_def)
  have min: "\<forall>pre' n' a' r'. ?s = pre' @ directive_token n' a' @ r' \<and> token_shape n' a'
               \<longrightarrow> length ([] :: string) \<le> length pre'"
    by simp
  have "\<exists>pre r. ?s = pre @ directive_token ''add_1'' ''{\"a\": 1}'' @ r
         \<and> token_shape ''add_1'' ''{\"a\": 1}''
         \<and> (\<forall>pre' n' a' r'. ?s = pre' @ directive_token n' a' @ r' \<and> token_shape n' a'
               \<longrightarrow> length pre \<le> length pre')
         \<and> findall '' and so on]'' = findall r"
    using dec sh min by (intro exI [of _ "[]"] exI [of _ "'' and so on]''"] conjI refl)
  with conjunct1 [OF conjunct2 [OF t]]
  have a: "findall ?s = (''add_1'', ''{\"a\": 1}'') # findall '' and so on]''"
    by (rule iffD2)
  have b: "json_loads sample_env ''{\"city\": \"Paris\"}''
      = Inr (JObject [(''city'', JString ''Paris'')])"
    by (simp add: sample_env_def sample_loads_def)
  note c = mp [OF conjunct2 [OF conjunct2 [OF conjunct2 [OF t]]] b]
  show ?thesis by (intro conjI a b c)
qed








text \<open>
  C2. A directive whose payload \<^verbatim>\<open>json.loads\<close> rejects is dispatched with the empty object
  as its arguments, and the loop goes on as for any other directive. The directive
  \<open>(n, p)\<close> stands anywhere in the scan of the first answer \<open>r0\<close>, after directives \<open>ds1\<close>
  whose rounds succeeded and before directives \<open>ds2\<close>. The decode error \<open>x\<close> is in none of
  the results: the session is called with \<open>JObject []\<close>, and what \<^verbatim>\<open>process_query\<close> does is
  fixed by what the session and the model answer. If the session fails, \<^verbatim>\<open>process_query\<close>
  raises that failure; if the follow-up call of the model fails, it raises that one; and
  if both succeed and the rounds of \<open>ds2\<close> succeed, it returns the transcript with the
  follow-up \<open>f\<close> of this directive between those of \<open>ds1\<close> and \<open>ds2\<close>.
\<close>

theorem malformed_arguments_default_to_empty:
  assumes "list_tools E w = (Inr tools, w1)"
    and "system_msg (py_str E) (Some (map to_dict tools)) = Inr sm"
    and "acreate E [\<lparr>role = ''system'', content = sm\<rparr>, \<lparr>role = ''user'', content = q\<rparr>]
           1000 w1 = (Inr r0, w2)"
    and "findall r0 = ds1 @ (n, p) # ds2"
    and "rounds E ds1 w2 [\<lparr>role = ''user'', content = q\<rparr>] = Some (fs1, evs1, wa, ha)"
    and "json_loads E p = Inl x"
  shows "(call_tool E n (JObject []) wa = (Inl e, wb) \<longrightarrow>
            process_query E q w =
              (Inl e,
               \<lparr>world = wb, messages = ha, final_text = r0 # fs1,
                log = ListTools (Inr tools)
                      # ChatCompletion [\<lparr>role = ''system'', content = sm\<rparr>,
                                        \<lparr>role = ''user'', content = q\<rparr>] 1000 (Inr r0)
                      # evs1 @ [CallTool n (JObject []) (Inl e)]\<rparr>))
    \<and> (call_tool E n (JObject []) wa = (Inr c, wb)
        \<and> acreate E (system_message # ha @ tool_entries E n c) 1000 wb = (Inl e, wc) \<longrightarrow>
            process_query E q w =
              (Inl e,
               \<lparr>world = wc, messages = ha @ tool_entries E n c, final_text = r0 # fs1,
                log = ListTools (Inr tools)
                      # ChatCompletion [\<lparr>role = ''system'', content = sm\<rparr>,
                                        \<lparr>role = ''user'', content = q\<rparr>] 1000 (Inr r0)
                      # evs1 @ [CallTool n (JObject []) (Inr c),
                                ChatCompletion (system_message # ha @ tool_entries E n c) 1000
                                  (Inl e)]\<rparr>))
    \<and> (call_tool E n (JObject []) wa = (Inr c, wb)
        \<and> acreate E (system_message # ha @ tool_entries E n c) 1000 wb = (Inr f, wc)
        \<and> rounds E ds2 wc (ha @ tool_entries E n c) = Some (fs2, evs2, w', h') \<longrightarrow>
            process_query E q w =
              (Inr (join ''\<newline>'' (r0 # fs1 @ f # fs2)),
               \<lparr>world = w', messages = h', final_text = r0 # fs1 @ f # fs2,
                log = ListTools (Inr tools)
                      # ChatCompletion [\<lparr>role = ''system'', content = sm\<rparr>,
                                        \<lparr>role = ''user'', content = q\<rparr>] 1000 (Inr r0)
                      # evs1 @ CallTool n (JObject []) (Inr c)
                          # ChatCompletion (system_message # ha @ tool_entries E n c) 1000 (Inr f)
                          # evs2\<rparr>))"
proof -
  note ta = tool_args_Inl [OF assms(6)]
  note H = assms(1,2,3,4,5)
  show ?thesis
    using process_query_tool_fails [OF H, of e wb]
      process_query_followup_fails [OF H, of c wb e wc]
      process_query_continues [OF H, of c wb f wc fs2 evs2 w' h']
    by (simp only: ta) blast
qed

theorem malformed_arguments_default_to_empty_witness:
  "list_tools sample_env 0 = (Inr sample_tools, 1)
   \<and> system_msg (py_str sample_env) (Some (map to_dict sample_tools)) = Inr sample_system_msg
   \<and> acreate sample_env [\<lparr>role = ''system'', content = sample_system_msg\<rparr>,
                          \<lparr>role = ''user'', content = two_calls\<rparr>] 1000 1
       = (Inr (''Re: '' @ two_calls), 2)
   \<and> findall (''Re: '' @ two_calls) = [(''a'', ''42'')] @ (''b'', ''{city: Paris}'') # []
   \<and> rounds sample_env [(''a'', ''42'')] 2 [\<lparr>role = ''user'', content = two_calls\<rparr>]
       = Some ([''Re: result of a''], events_a, 4, after_a)
   \<and> json_loads sample_env ''{city: Paris}''
       = Inl (Raised ''Expecting property name enclosed in double quotes: line 1 column 2 (char 1)'')
   \<and> call_tool sample_env ''b'' (JObject []) 4 = (Inr ''result of b'', 5)
   \<and> acreate sample_env (system_message # after_a @ tool_entries sample_env ''b'' ''result of b'')
        1000 5 = (Inr ''Re: result of b'', 6)
   \<and> rounds sample_env [] 6 (after_a @ tool_entries sample_env ''b'' ''result of b'')
       = Some ([], [], 6, after_b)
   \<and> process_query sample_env two_calls 0 =
       (Inr (join ''\<newline>'' ((''Re: '' @ two_calls) # [''Re: result of a''] @ ''Re: result of b'' # [])),
        \<lparr>world = 6, messages = after_b,
         final_text = (''Re: '' @ two_calls) # [''Re: result of a''] @ ''Re: result of b'' # [],
         log = ListTools (Inr sample_tools)
               # ChatCompletion [\<lparr>role = ''system'', content = sample_system_msg\<rparr>,
                                 \<lparr>role = ''user'', content = two_calls\<rparr>] 1000
                   (Inr (''Re: '' @ two_calls))
               # events_a @ CallTool ''b'' (JObject []) (Inr ''result of b'')
                   # ChatCompletion
                       (system_message # after_a @ tool_entries sample_env ''b'' ''result of b'')
                       1000 (Inr ''Re: result of b'')
                   # []\<rparr>)"
proof -
  note t = malformed_arguments_default_to_empty
    [where c = "''result of b''" and wb = "5::nat" and f = "''Re: result of b''"
       and wc = "6::nat" and ?fs2.0 = "[]" and ?evs2.0 = "[]" and w' = "6::nat" and h' = after_b,
      OF sample_list_tools_0 sample_system two_calls_first two_calls_split_b rounds_a
        sample_loads_malformed]
  note p = mp [OF conjunct2 [OF conjunct2 [OF t]]
      conjI [OF sample_call_b conjI [OF sample_followup_b sample_rest_b]]]
  show ?thesis
    by (intro conjI sample_list_tools_0 sample_system two_calls_first two_calls_split_b rounds_a
        sample_loads_malformed sample_call_b sample_followup_b sample_rest_b p)
qed

text \<open>
  C10. A directive whose payload decodes is dispatched with the decoded value \<open>v\<close> as its
  arguments, whatever \<open>v\<close> is: nothing is assumed of \<open>v\<close>, so a number, a string, an array
  or \<^verbatim>\<open>null\<close> reaches the session as it was decoded, and the loop neither replaces it by
  the empty object nor raises on it. What follows is fixed by what the session and the model
  answer, as for an object: a failure of either is raised, and otherwise the follow-up \<open>f\<close> is
  the segment of this directive.
\<close>

theorem non_object_arguments_pass_through:
  assumes "list_tools E w = (Inr tools, w1)"
    and "system_msg (py_str E) (Some (map to_dict tools)) = Inr sm"
    and "acreate E [\<lparr>role = ''system'', content = sm\<rparr>, \<lparr>role = ''user'', content = q\<rparr>]
           1000 w1 = (Inr r0, w2)"
    and "findall r0 = ds1 @ (n, p) # ds2"
    and "rounds E ds1 w2 [\<lparr>role = ''user'', content = q\<rparr>] = Some (fs1, evs1, wa, ha)"
    and "json_loads E p = Inr v"
  shows "(call_tool E n v wa = (Inl e, wb) \<longrightarrow>
            process_query E q w =
              (Inl e,
               \<lparr>world = wb, messages = ha, final_text = r0 # fs1,
                log = ListTools (Inr tools)
                      # ChatCompletion [\<lparr>role = ''system'', content = sm\<rparr>,
                                        \<lparr>role = ''user'', content = q\<rparr>] 1000 (Inr r0)
                      # evs1 @ [CallTool n v (Inl e)]\<rparr>))
    \<and> (call_tool E n v wa = (Inr c, wb)
        \<and> acreate E (system_message # ha @ tool_entries E n c) 1000 wb = (Inl e, wc) \<longrightarrow>
            process_query E q w =
              (Inl e,
               \<lparr>world = wc, messages = ha @ tool_entries E n c, final_text = r0 # fs1,
                log = ListTools (Inr tools)
                      # ChatCompletion [\<lparr>role = ''system'', content = sm\<rparr>,
                                        \<lparr>role = ''user'', content = q\<rparr>] 1000 (Inr r0)
                      # evs1 @ [CallTool n v (Inr c),
                                ChatCompletion (system_message # ha @ tool_entries E n c) 1000
                                  (Inl e)]\<rparr>))
    \<and> (call_tool E n v wa = (Inr c, wb)
        \<and> acreate E (system_message # ha @ tool_entries E n c) 1000 wb = (Inr f, wc)
        \<and> rounds E ds2 wc (ha @ tool_entries E n c) = Some (fs2, evs2, w', h') \<longrightarrow>
            process_query E q w =
              (Inr (join ''\<newline>'' (r0 # fs1 @ f # fs2)),
               \<lparr>world = w', messages = h', final_text = r0 # fs1 @ f # fs2,
                log = ListTools (Inr tools)
                      # ChatCompletion [\<lparr>role = ''system'', content = sm\<rparr>,
                                        \<lparr>role = ''user'', content = q\<rparr>] 1000 (Inr r0)
                      # evs1 @ CallTool n v (Inr c)
                          # ChatCompletion (system_message # ha @ tool_entries E n c) 1000 (Inr f)
                          # evs2\<rparr>))"
proof -
  note ta = tool_args_Inr [OF assms(6)]
  note H = assms(1,2,3,4,5)
  show ?thesis
    using process_query_tool_fails [OF H, of e wb]
      process_query_followup_fails [OF H, of c wb e wc]
      process_query_continues [OF H, of c wb f wc fs2 evs2 w' h']
    by (simp only: ta) blast
qed


theorem non_object_arguments_pass_through_witness:
  "list_tools sample_env 0 = (Inr sample_tools, 1)
   \<and> system_msg (py_str sample_env) (Some (map to_dict sample_tools)) = Inr sample_system_msg
   \<and> acreate sample_env [\<lparr>role = ''system'', content = sample_system_msg\<rparr>,
                          \<lparr>role = ''user'', content = two_calls\<rparr>] 1000 1
       = (Inr (''Re: '' @ two_calls), 2)
   \<and> findall (''Re: '' @ two_calls) = [] @ (''a'', ''42'') # [(''b'', ''{city: Paris}'')]
   \<and> rounds sample_env [] 2 [\<lparr>role = ''user'', content = two_calls\<rparr>]
       = Some ([], [], 2, [\<lparr>role = ''user'', content = two_calls\<rparr>])
   \<and> json_loads sample_env ''42'' = Inr (JInt 42)
   \<and> call_tool sample_env ''a'' (JInt 42) 2 = (Inr ''result of a'', 3)
   \<and> acreate sample_env
        (system_message # [\<lparr>role = ''user'', content = two_calls\<rparr>]
           @ tool_entries sample_env ''a'' ''result of a'')
        1000 3 = (Inr ''Re: result of a'', 4)
   \<and> rounds sample_env [(''b'', ''{city: Paris}'')] 4
        ([\<lparr>role = ''user'', content = two_calls\<rparr>] @ tool_entries sample_env ''a'' ''result of a'')
       = Some ([''Re: result of b''], events_b, 6, after_b)
   \<and> process_query sample_env two_calls 0 =
       (Inr (join ''\<newline>'' ((''Re: '' @ two_calls) # [] @ ''Re: result of a'' # [''Re: result of b''])),
        \<lparr>world = 6, messages = after_b,
         final_text = (''Re: '' @ two_calls) # [] @ ''Re: result of a'' # [''Re: result of b''],
         log = ListTools (Inr sample_tools)
               # ChatCompletion [\<lparr>role = ''system'', content = sample_system_msg\<rparr>,
                                 \<lparr>role = ''user'', content = two_calls\<rparr>] 1000
                   (Inr (''Re: '' @ two_calls))
               # [] @ CallTool ''a'' (JInt 42) (Inr ''result of a'')
                   # ChatCompletion
                       (system_message # [\<lparr>role = ''user'', content = two_calls\<rparr>]
                          @ tool_entries sample_env ''a'' ''result of a'')
                       1000 (Inr ''Re: result of a'')
                   # events_b\<rparr>)"
proof -
  note t = non_object_arguments_pass_through
    [where c = "''result of a''" and wb = "3::nat" and f = "''Re: result of a''"
       and wc = "4::nat" and ?fs2.0 = "[''Re: result of b'']" and ?evs2.0 = events_b
       and w' = "6::nat" and h' = after_b,
      OF sample_list_tools_0 sample_system two_calls_first two_calls_split_a sample_start
        sample_loads_42]
  note p = mp [OF conjunct2 [OF conjunct2 [OF t]]
      conjI [OF sample_call_a conjI [OF sample_followup_a sample_rest_a]]]
  show ?thesis
    by (intro conjI sample_list_tools_0 sample_system two_calls_first two_calls_split_a
        sample_start sample_loads_42 sample_call_a sample_followup_a sample_rest_a p)
qed

text \<open>
  C3. When the session fails on a directive, the whole query fails. The directive
  \<open>(n, p)\<close> stands anywhere in the scan of the first answer, after directives \<open>ds1\<close> whose
  rounds succeeded (so it may be the second of two) and before directives \<open>ds2\<close>. Then
  \<^verbatim>\<open>process_query\<close> raises the failure \<open>e\<close> of the session and returns no transcript; the
  failing call is the last call made, so no directive of \<open>ds2\<close> reaches the session and
  the model is not asked again. \<^verbatim>\<open>chat_loop\<close>, given that query on a line, writes
  \<^verbatim>\<open>Error: \<close> and the text of \<open>e\<close> and goes on with the lines that follow, from the
  world the failing call left.
\<close>

theorem tool_failure_is_terminal:
  assumes "list_tools E w = (Inr tools, w1)"
    and "system_msg (py_str E) (Some (map to_dict tools)) = Inr sm"
    and "acreate E [\<lparr>role = ''system'', content = sm\<rparr>, \<lparr>role = ''user'', content = q\<rparr>]
           1000 w1 = (Inr r0, w2)"
    and "findall r0 = ds1 @ (n, p) # ds2"
    and "rounds E ds1 w2 [\<lparr>role = ''user'', content = q\<rparr>] = Some (fs1, evs1, wa, ha)"
    and "call_tool E n (tool_args E p) wa = (Inl e, wb)"
  shows "process_query E q w =
           (Inl e,
            \<lparr>world = wb, messages = ha, final_text = r0 # fs1,
             log = ListTools (Inr tools)
                   # ChatCompletion [\<lparr>role = ''system'', content = sm\<rparr>,
                                     \<lparr>role = ''user'', content = q\<rparr>] 1000 (Inr r0)
                   # evs1 @ [CallTool n (tool_args E p) (Inl e)]\<rparr>)
    \<and> (strip line = q \<and> lower q \<noteq> ''quit'' \<longrightarrow>
          chat_loop E (line # lines) w =
            (case chat_loop_body E lines wb of
               (out, fin) \<Rightarrow>
                 (''\<newline>MCP Client Started!\<newline>''
                  # ''Type your queries or 'quit' to exit.\<newline>''
                  # ''\<newline>Query: ''
                  # (''\<newline>Error: '' @ exn_text e @ ''\<newline>'')
                  # out, fin)))"
proof -
  note pq = process_query_tool_fails [OF assms]
  have "chat_loop E (line # lines) w =
            (case chat_loop_body E lines wb of
               (out, fin) \<Rightarrow>
                 (''\<newline>MCP Client Started!\<newline>''
                  # ''Type your queries or 'quit' to exit.\<newline>''
                  # ''\<newline>Query: ''
                  # (''\<newline>Error: '' @ exn_text e @ ''\<newline>'')
                  # out, fin))"
    if "strip line = q" "lower q \<noteq> ''quit''"
    using that by (simp add: chat_loop_def Let_def pq split: prod.splits)
  with pq show ?thesis by blast
qed

theorem tool_failure_is_terminal_witness:
  "list_tools sample_env 0 = (Inr sample_tools, 1)
   \<and> system_msg (py_str sample_env) (Some (map to_dict sample_tools)) = Inr sample_system_msg
   \<and> acreate sample_env [\<lparr>role = ''system'', content = sample_system_msg\<rparr>,
                          \<lparr>role = ''user'', content = second_fails\<rparr>] 1000 1
       = (Inr (''Re: '' @ second_fails), 2)
   \<and> findall (''Re: '' @ second_fails) = [(''a'', ''42'')] @ (''broken'', ''null'') # []
   \<and> call_tool sample_env ''broken'' (tool_args sample_env ''null'') 4
       = (Inl (Raised ''tool failed''), 5)
   \<and> strip second_fails = second_fails
   \<and> lower second_fails \<noteq> ''quit''
   \<and> fst (process_query sample_env second_fails 0) = Inl (Raised ''tool failed'')
   \<and> world (snd (process_query sample_env second_fails 0)) = 5
   \<and> dispatched (log (snd (process_query sample_env second_fails 0)))
       = [(''a'', JInt 42), (''broken'', JNull)]
   \<and> chat_loop sample_env [second_fails, ''hello''] 0 =
       ([''\<newline>MCP Client Started!\<newline>'', ''Type your queries or 'quit' to exit.\<newline>'',
         ''\<newline>Query: '', ''\<newline>Error: tool failed\<newline>'',
         ''\<newline>Query: '', ''\<newline>Re: hello\<newline>'', ''\<newline>Query: ''],
        AwaitingInput, 7)"
proof -
  note t = tool_failure_is_terminal
    [where line = second_fails and lines = "[''hello'']",
      OF sample_list_tools_0 sample_system second_fails_first second_fails_split
        rounds_a_second_fails sample_call_broken]
  note pq = conjunct1 [OF t]
  note cl = mp [OF conjunct2 [OF t] conjI [OF strip_second_fails lower_second_fails]]
  have r: "fst (process_query sample_env second_fails 0) = Inl (Raised ''tool failed'')"
    by (simp add: pq)
  have w: "world (snd (process_query sample_env second_fails 0)) = 5"
    by (simp add: pq)
  have ta: "tool_args sample_env ''null'' = JNull"
    by (simp add: tool_args_def sample_env_def sample_loads_def)
  have d: "dispatched (log (snd (process_query sample_env second_fails 0)))
       = [(''a'', JInt 42), (''broken'', JNull)]"
    by (simp add: pq ta)
  have c: "chat_loop sample_env [second_fails, ''hello''] 0 =
       ([''\<newline>MCP Client Started!\<newline>'', ''Type your queries or 'quit' to exit.\<newline>'',
         ''\<newline>Query: '', ''\<newline>Error: tool failed\<newline>'',
         ''\<newline>Query: '', ''\<newline>Re: hello\<newline>'', ''\<newline>Query: ''],
        AwaitingInput, 7)"
    unfolding cl chat_loop_body_hello by simp
  show ?thesis
    by (intro conjI sample_list_tools_0 sample_system second_fails_first second_fails_split
        sample_call_broken strip_second_fails lower_second_fails r w d c)
qed

text \<open>
  C6. Every directive the loop reaches is sent to the session under the name the model
  wrote, whether the catalog lists that name or not. The catalog \<open>tools\<close> is whatever the
  session listed and \<open>n\<close> is the name of a directive anywhere in the scan of the first
  answer, after directives \<open>ds1\<close> whose rounds succeeded; nothing relates \<open>n\<close> to \<open>tools\<close>.
  The scan \<open>findall r0\<close> reads the answer alone, and the loop calls the session with \<open>n\<close>
  and the decoded arguments: what \<^verbatim>\<open>process_query\<close> does next is what the session answers
  to that call (a failure is raised, a result is entered in the history and followed by a
  call of the model), never a check of \<open>n\<close> against the catalog.
\<close>

theorem dispatch_ignores_catalog:
  assumes "list_tools E w = (Inr tools, w1)"
    and "system_msg (py_str E) (Some (map to_dict tools)) = Inr sm"
    and "acreate E [\<lparr>role = ''system'', content = sm\<rparr>, \<lparr>role = ''user'', content = q\<rparr>]
           1000 w1 = (Inr r0, w2)"
    and "findall r0 = ds1 @ (n, p) # ds2"
    and "rounds E ds1 w2 [\<lparr>role = ''user'', content = q\<rparr>] = Some (fs1, evs1, wa, ha)"
  shows "(call_tool E n (tool_args E p) wa = (Inl e, wb) \<longrightarrow>
            process_query E q w =
              (Inl e,
               \<lparr>world = wb, messages = ha, final_text = r0 # fs1,
                log = ListTools (Inr tools)
                      # ChatCompletion [\<lparr>role = ''system'', content = sm\<rparr>,
                                        \<lparr>role = ''user'', content = q\<rparr>] 1000 (Inr r0)
                      # evs1 @ [CallTool n (tool_args E p) (Inl e)]\<rparr>))
    \<and> (call_tool E n (tool_args E p) wa = (Inr c, wb)
        \<and> acreate E (system_message # ha @ tool_entries E n c) 1000 wb = (Inl e, wc) \<longrightarrow>
            process_query E q w =
              (Inl e,
               \<lparr>world = wc, messages = ha @ tool_entries E n c, final_text = r0 # fs1,
                log = ListTools (Inr tools)
                      # ChatCompletion [\<lparr>role = ''system'', content = sm\<rparr>,
                                        \<lparr>role = ''user'', content = q\<rparr>] 1000 (Inr r0)
                      # evs1 @ [CallTool n (tool_args E p) (Inr c),
                                ChatCompletion (system_message # ha @ tool_entries E n c) 1000
                                  (Inl e)]\<rparr>))
    \<and> (call_tool E n (tool_args E p) wa = (Inr c, wb)
        \<and> acreate E (system_message # ha @ tool_entries E n c) 1000 wb = (Inr f, wc)
        \<and> rounds E ds2 wc (ha @ tool_entries E n c) = Some (fs2, evs2, w', h') \<longrightarrow>
            process_query E q w =
              (Inr (join ''\<newline>'' (r0 # fs1 @ f # fs2)),
               \<lparr>world = w', messages = h', final_text = r0 # fs1 @ f # fs2,
                log = ListTools (Inr tools)
                      # ChatCompletion [\<lparr>role = ''system'', content = sm\<rparr>,
                                        \<lparr>role = ''user'', content = q\<rparr>] 1000 (Inr r0)
                      # evs1 @ CallTool n (tool_args E p) (Inr c)
                          # ChatCompletion (system_message # ha @ tool_entries E n c) 1000 (Inr f)
                          # evs2\<rparr>))"
  using process_query_tool_fails [OF assms, of e wb]
    process_query_followup_fails [OF assms, of c wb e wc]
    process_query_continues [OF assms, of c wb f wc fs2 evs2 w' h']
  by blast

theorem dispatch_ignores_catalog_witness:
  "list_tools sample_env 0 = (Inr sample_tools, 1)
   \<and> ''b'' \<notin> set (map name sample_tools)
   \<and> system_msg (py_str sample_env) (Some (map to_dict sample_tools)) = Inr sample_system_msg
   \<and> acreate sample_env [\<lparr>role = ''system'', content = sample_system_msg\<rparr>,
                          \<lparr>role = ''user'', content = two_calls\<rparr>] 1000 1
       = (Inr (''Re: '' @ two_calls), 2)
   \<and> findall (''Re: '' @ two_calls) = [(''a'', ''42'')] @ (''b'', ''{city: Paris}'') # []
   \<and> rounds sample_env [(''a'', ''42'')] 2 [\<lparr>role = ''user'', content = two_calls\<rparr>]
       = Some ([''Re: result of a''], events_a, 4, after_a)
   \<and> call_tool sample_env ''b'' (tool_args sample_env ''{city: Paris}'') 4
       = (Inr ''result of b'', 5)
   \<and> acreate sample_env (system_message # after_a @ tool_entries sample_env ''b'' ''result of b'')
        1000 5 = (Inr ''Re: result of b'', 6)
   \<and> rounds sample_env [] 6 (after_a @ tool_entries sample_env ''b'' ''result of b'')
       = Some ([], [], 6, after_b)
   \<and> process_query sample_env two_calls 0 =
       (Inr (join ''\<newline>'' ((''Re: '' @ two_calls) # [''Re: result of a''] @ ''Re: result of b'' # [])),
        \<lparr>world = 6, messages = after_b,
         final_text = (''Re: '' @ two_calls) # [''Re: result of a''] @ ''Re: result of b'' # [],
         log = ListTools (Inr sample_tools)
               # ChatCompletion [\<lparr>role = ''system'', content = sample_system_msg\<rparr>,
                                 \<lparr>role = ''user'', content = two_calls\<rparr>] 1000
                   (Inr (''Re: '' @ two_calls))
               # events_a @ CallTool ''b'' (tool_args sample_env ''{city: Paris}'') (Inr ''result of b'')
                   # ChatCompletion
                       (system_message # after_a @ tool_entries sample_env ''b'' ''result of b'')
                       1000 (Inr ''Re: result of b'')
                   # []\<rparr>)"
proof -
  note t = dispatch_ignores_catalog
    [where c = "''result of b''" and wb = "5::nat" and f = "''Re: result of b''"
       and wc = "6::nat" and ?fs2.0 = "[]" and ?evs2.0 = "[]" and w' = "6::nat" and h' = after_b,
      OF sample_list_tools_0 sample_system two_calls_first two_calls_split_b rounds_a]
  note p = mp [OF conjunct2 [OF conjunct2 [OF t]]
      conjI [OF sample_call_b_args conjI [OF sample_followup_b sample_rest_b]]]
  show ?thesis
    by (intro conjI sample_list_tools_0 b_not_listed sample_system two_calls_first
        two_calls_split_b rounds_a sample_call_b_args sample_followup_b sample_rest_b p)
qed

end
